theory Spec2Isabelle
  imports Complex_Main
begin

section \<open>Tensors\<close>

text \<open>
  A two-dimensional tensor of shape \<open>(rows, columns)\<close> is the list of its rows. Its entries
  are real numbers: the arithmetic of the script is followed exactly, the rounding of the
  32-bit floating-point numbers that torch computes with is outside this development.
  A tensor with no row carries no column count.
\<close>

type_synonym tensor = "real list list"

datatype error = KeyError | IndexError | TypeError | ValueError | RuntimeError

definition has_shape :: "tensor \<Rightarrow> nat \<Rightarrow> nat \<Rightarrow> bool" where
  "has_shape t r c \<longleftrightarrow> map length t = replicate r c"

definition zeros :: "nat \<Rightarrow> nat \<Rightarrow> tensor" where
  \<comment> \<open>\<open>torch.zeros((r, c))\<close>\<close>
  "zeros r c = replicate r (replicate c 0)"

definition cat_dim1 :: "tensor \<Rightarrow> tensor \<Rightarrow> tensor" where
  \<comment> \<open>\<open>torch.cat((a, b), dim=1)\<close> for tensors with the same number of rows\<close>
  "cat_dim1 a b = map2 (@) a b"

definition linear :: "tensor \<Rightarrow> tensor \<Rightarrow> tensor" where
  \<comment> \<open>\<open>F.linear(input, weight)\<close> without bias: \<open>input @ weight.T\<close>\<close>
  "linear inp weight = map (\<lambda>row. map (\<lambda>w. sum_list (map2 (*) row w)) weight) inp"

definition linear_bias :: "tensor \<Rightarrow> tensor \<Rightarrow> real list \<Rightarrow> tensor" where
  \<comment> \<open>\<open>nn.Linear\<close>: \<open>input @ weight.T + bias\<close>\<close>
  "linear_bias inp weight bias = map (\<lambda>row. map2 (+) row bias) (linear inp weight)"

definition tmap :: "(real \<Rightarrow> real) \<Rightarrow> tensor \<Rightarrow> tensor" where
  "tmap g t = map (map g) t"

definition tmul :: "tensor \<Rightarrow> tensor \<Rightarrow> tensor" where
  \<comment> \<open>\<open>a * b\<close> for tensors of one shape\<close>
  "tmul a b = map2 (map2 (*)) a b"

definition tadd :: "tensor \<Rightarrow> tensor \<Rightarrow> tensor" where
  \<comment> \<open>\<open>a + b\<close> for tensors of one shape\<close>
  "tadd a b = map2 (map2 (+)) a b"

definition one_minus :: "tensor \<Rightarrow> tensor" where
  \<comment> \<open>\<open>1 - a\<close>\<close>
  "one_minus a = tmap (\<lambda>v. 1 - v) a"

definition sigmoid :: "real \<Rightarrow> real" where
  \<comment> \<open>\<open>torch.sigmoid\<close>, entry by entry\<close>
  "sigmoid v = 1 / (1 + exp (- v))"

section \<open>The recurrent cells\<close>

subsection \<open>VisualizeCoupledLSTMCell\<close>

record VisualizeCoupledLSTMCell =
  input_size :: nat
  hidden_size :: nat
  W_f :: tensor
  W_c :: tensor
  W_o :: tensor

text \<open>
  \<open>__init__\<close> allocates three parameters of shape \<open>(hidden_size, hidden_size + input_size)\<close>;
  the shapes never change afterwards.
\<close>

definition cell_shaped :: "VisualizeCoupledLSTMCell \<Rightarrow> bool" where
  "cell_shaped cell \<longleftrightarrow>
     has_shape (W_f cell) (hidden_size cell) (hidden_size cell + input_size cell) \<and>
     has_shape (W_c cell) (hidden_size cell) (hidden_size cell + input_size cell) \<and>
     has_shape (W_o cell) (hidden_size cell) (hidden_size cell + input_size cell)"

type_synonym lstm_state = "tensor \<times> tensor"
type_synonym gate_signals = "tensor \<times> tensor \<times> tensor"

text \<open>
  torch raises a \<open>RuntimeError\<close> when \<open>torch.cat\<close> gets tensors with different numbers of rows
  or \<open>F.linear\<close> an input whose rows do not fit the weight. The source's \<open>o\<close> is written
  \<open>o_gate\<close> here. The product with the previous cell
  state is followed for a previous cell state of shape \<open>(batch, hidden_size)\<close>; another shape
  is reported as \<open>RuntimeError\<close> as well (torch would first try to broadcast it).
\<close>

definition fits :: "VisualizeCoupledLSTMCell \<Rightarrow> tensor \<Rightarrow> tensor \<Rightarrow> tensor \<Rightarrow> bool" where
  "fits cell x prev_h prev_c \<longleftrightarrow>
     length prev_h = length x \<and>
     map length (cat_dim1 prev_h x) = replicate (length x) (hidden_size cell + input_size cell) \<and>
     has_shape prev_c (length x) (hidden_size cell)"

definition VisualizeCoupledLSTMCell_forward ::
  "VisualizeCoupledLSTMCell \<Rightarrow> tensor \<Rightarrow> lstm_state option
     \<Rightarrow> error + (tensor \<times> tensor \<times> gate_signals)" where
  "VisualizeCoupledLSTMCell_forward cell x prev_state =
     (let (prev_h, prev_c) =
            (case prev_state of
               None \<Rightarrow> (let batch = length x
                        in (zeros batch (hidden_size cell), zeros batch (hidden_size cell)))
             | Some s \<Rightarrow> s)
      in if \<not> fits cell x prev_h prev_c then Inl RuntimeError
         else
           let concat_hx = cat_dim1 prev_h x;
               f = tmap sigmoid (linear concat_hx (W_f cell));
               o_gate = tmap sigmoid (linear concat_hx (W_o cell));
               c_tilde = tmap tanh (linear concat_hx (W_c cell));
               next_c = tadd (tmul f prev_c) (tmul (one_minus f) c_tilde);
               next_h = tmul o_gate (tmap tanh next_c)
           in Inr (next_h, next_c, (f, o_gate, c_tilde)))"

subsection \<open>VisualizeGRUCell\<close>

record VisualizeGRUCell =
  gru_input_size :: nat
  gru_hidden_size :: nat
  W_z :: tensor
  W_r :: tensor
  W :: tensor

definition gru_shaped :: "VisualizeGRUCell \<Rightarrow> bool" where
  "gru_shaped cell \<longleftrightarrow>
     has_shape (W_z cell) (gru_hidden_size cell) (gru_hidden_size cell + gru_input_size cell) \<and>
     has_shape (W_r cell) (gru_hidden_size cell) (gru_hidden_size cell + gru_input_size cell) \<and>
     has_shape (W cell) (gru_hidden_size cell) (gru_hidden_size cell + gru_input_size cell)"

definition gru_fits :: "VisualizeGRUCell \<Rightarrow> tensor \<Rightarrow> tensor \<Rightarrow> bool" where
  "gru_fits cell x prev_h \<longleftrightarrow>
     length prev_h = length x \<and>
     map length (cat_dim1 prev_h x)
       = replicate (length x) (gru_hidden_size cell + gru_input_size cell) \<and>
     has_shape prev_h (length x) (gru_hidden_size cell)"

definition VisualizeGRUCell_forward ::
  "VisualizeGRUCell \<Rightarrow> tensor \<Rightarrow> tensor option \<Rightarrow> error + (tensor \<times> gate_signals)" where
  "VisualizeGRUCell_forward cell x prev_state =
     (let prev_h =
            (case prev_state of
               None \<Rightarrow> (let batch = length x in zeros batch (gru_hidden_size cell))
             | Some s \<Rightarrow> s)
      in if \<not> gru_fits cell x prev_h then Inl RuntimeError
         else
           let concat_hx = cat_dim1 prev_h x;
               z = tmap sigmoid (linear concat_hx (W_z cell));
               r = tmap sigmoid (linear concat_hx (W_r cell));
               h_tilde = tmap tanh (linear (cat_dim1 (tmul r prev_h) x) (W cell));
               next_h = tadd (tmul (one_minus z) prev_h) (tmul z h_tilde)
           in Inr (next_h, (z, r, h_tilde)))"

subsection \<open>The published equations, unit by unit\<close>

text \<open>
  The equations are written for one batch row \<open>b\<close> and one hidden unit \<open>j\<close>:
  \<open>stacked h x b k\<close> is component \<open>k\<close> of the stacked vector \<open>[h; x]\<close> of row \<open>b\<close>,
  \<open>reset_stacked r h x b k\<close> is component \<open>k\<close> of \<open>[r \<odot> h; x]\<close>, and \<open>affine Wt j v\<close> is
  component \<open>j\<close> of the product of the matrix \<open>Wt\<close> with the vector \<open>v\<close>.
\<close>

definition stacked :: "tensor \<Rightarrow> tensor \<Rightarrow> nat \<Rightarrow> nat \<Rightarrow> real" where
  "stacked h x b k =
     (if k < length (h ! b) then h ! b ! k else x ! b ! (k - length (h ! b)))"

definition reset_stacked :: "tensor \<Rightarrow> tensor \<Rightarrow> tensor \<Rightarrow> nat \<Rightarrow> nat \<Rightarrow> real" where
  "reset_stacked r h x b k =
     (if k < length (h ! b) then r ! b ! k * h ! b ! k else x ! b ! (k - length (h ! b)))"

definition affine :: "tensor \<Rightarrow> nat \<Rightarrow> (nat \<Rightarrow> real) \<Rightarrow> real" where
  "affine Wt j v = (\<Sum>k < length (Wt ! j). Wt ! j ! k * v k)"

subsection \<open>Small cells for the examples\<close>

definition example_cell :: VisualizeCoupledLSTMCell where
  "example_cell =
     \<lparr>input_size = 1, hidden_size = 1, W_f = [[1, 2]], W_c = [[0, 1]], W_o = [[- 1, 0]]\<rparr>"

definition example_gru :: VisualizeGRUCell where
  "example_gru =
     \<lparr>gru_input_size = 1, gru_hidden_size = 1, W_z = [[1, 2]], W_r = [[0, 1]], W = [[2, - 1]]\<rparr>"

section \<open>Python values\<close>

text \<open>
  Python's integers are \<open>int\<close>, its characters \<open>char\<close>, a \<open>str\<close> is a \<open>string\<close>. Indexing a list
  with an integer counts from the end when the integer is negative and raises \<open>IndexError\<close>
  out of range; reading a missing key of a dictionary raises \<open>KeyError\<close>.
\<close>

definition list_get :: "'a list \<Rightarrow> int \<Rightarrow> error + 'a" where
  "list_get xs i =
     (let n = int (length xs); j = (if i < 0 then n + i else i)
      in if 0 \<le> j \<and> j < n then Inr (xs ! nat j) else Inl IndexError)"

definition dict_get :: "('k \<rightharpoonup> 'v) \<Rightarrow> 'k \<Rightarrow> error + 'v" where
  "dict_get d k = (case d k of None \<Rightarrow> Inl KeyError | Some v \<Rightarrow> Inr v)"

definition enumerate_py :: "'a list \<Rightarrow> (int \<times> 'a) list" where
  \<comment> \<open>\<open>enumerate(xs)\<close>\<close>
  "enumerate_py xs = zip (map int [0..<length xs]) xs"

definition dict_of :: "('k \<times> 'v) list \<Rightarrow> ('k \<rightharpoonup> 'v)" where
  \<comment> \<open>a dictionary comprehension stores the pairs in order, a later pair replacing an earlier
      one with the same key\<close>
  "dict_of kvs = fold (\<lambda>(k, v) d. d(k \<mapsto> v)) kvs Map.empty"

fun lookup_each :: "('k \<rightharpoonup> 'v) \<Rightarrow> 'k list \<Rightarrow> error + 'v list" where
  \<comment> \<open>\<open>[d[x] for x in xs]\<close>\<close>
  "lookup_each d [] = Inr []"
| "lookup_each d (x # xs) =
     (case dict_get d x of
        Inl e \<Rightarrow> Inl e
      | Inr v \<Rightarrow> (case lookup_each d xs of Inl e \<Rightarrow> Inl e | Inr vs \<Rightarrow> Inr (v # vs)))"

definition is_space :: "char \<Rightarrow> bool" where
  \<comment> \<open>the bytes that \<open>bytes.strip()\<close> removes: space, tab, newline, carriage return, vertical
      tab, form feed\<close>
  "is_space c \<longleftrightarrow> c \<in> set [CHR 0x20, CHR 0x09, CHR 0x0A, CHR 0x0D, CHR 0x0B, CHR 0x0C]"

definition strip :: "string \<Rightarrow> string" where
  "strip s = rev (dropWhile is_space (rev (dropWhile is_space s)))"

fun split_lines :: "string \<Rightarrow> string list" where
  \<comment> \<open>\<open>s.split('\n')\<close>\<close>
  "split_lines [] = [[]]"
| "split_lines (c # cs) =
     (if c = CHR 0x0A then [] # split_lines cs
      else (case split_lines cs of
              [] \<Rightarrow> [[c]]
            | l # ls \<Rightarrow> (c # l) # ls))"

definition lower_char :: "char \<Rightarrow> char" where
  \<comment> \<open>\<open>str.lower()\<close> on one character; only the ASCII letters are followed\<close>
  "lower_char c =
     (let n = (of_char c :: nat) in if 65 \<le> n \<and> n \<le> 90 then char_of (n + 32) else c)"

definition lower :: "string \<Rightarrow> string" where
  "lower s = map lower_char s"

definition digit_char :: "nat \<Rightarrow> char" where
  "digit_char d = char_of (48 + d)"

fun decimal :: "nat \<Rightarrow> string" where
  \<comment> \<open>\<open>'%d' % n\<close> for \<open>n \<ge> 0\<close>\<close>
  "decimal n = (if n < 10 then [digit_char n] else decimal (n div 10) @ [digit_char (n mod 10)])"

definition format_02d :: "nat \<Rightarrow> string" where
  \<comment> \<open>\<open>'%02d' % n\<close>: at least two digits, padded with zeros\<close>
  "format_02d n = (if n < 10 then CHR ''0'' # decimal n else decimal n)"

definition path_join :: "string \<Rightarrow> string \<Rightarrow> string" where
  \<comment> \<open>\<open>os.path.join(a, b)\<close> on POSIX\<close>
  "path_join a b =
     (if b \<noteq> [] \<and> hd b = CHR ''/'' then b
      else if a = [] \<or> last a = CHR ''/'' then a @ b
      else a @ ''/'' @ b)"

section \<open>Arrays and index tensors\<close>

datatype dtype = int64 | float64

text \<open>
  \<open>np.array\<close> of a list of Python integers is an integer array, \<open>np.array([])\<close> is an array of
  floats. The entries of the arrays and tensors that hold character indices are kept as
  integers.
\<close>

record ndarray =
  dtype :: dtype
  entries :: "int list"

definition np_array :: "int list \<Rightarrow> ndarray" where
  "np_array xs = \<lparr>dtype = (if xs = [] then float64 else int64), entries = xs\<rparr>"

text \<open>
  An index tensor of shape \<open>(batch, total_steps)\<close>: the list of its \<open>batch\<close> rows, each of
  length \<open>total_steps\<close>.
\<close>

record index_tensor =
  t_dtype :: dtype
  total_steps :: nat
  rows :: "int list list"

definition tensor_ok :: "index_tensor \<Rightarrow> bool" where
  "tensor_ok t \<longleftrightarrow> map length (rows t) = replicate (length (rows t)) (total_steps t)"

definition collate :: "ndarray \<times> int \<Rightarrow> index_tensor \<times> int list" where
  \<comment> \<open>the default collate function of \<open>DataLoader\<close> on a batch of one item\<close>
  "collate item =
     (case item of (a, label) \<Rightarrow>
        (\<lparr>t_dtype = dtype a, total_steps = length (entries a), rows = [entries a]\<rparr>, [label]))"

section \<open>VisualizeWarAndPeaceDataset\<close>

record VisualizeWarAndPeaceDataset =
  vocabulary :: "char list"
  data :: "string list"
  char2index :: "char \<rightharpoonup> int"
  index2char :: "int \<rightharpoonup> char"

text \<open>
  \<open>__init__\<close> reads the bytes of \<open>data/war_and_peace_visualize.txt\<close>, strips them and decodes
  them; \<open>raw_file\<close> is the content of that file, one \<open>char\<close> for each character. (The six
  characters that are stripped are single bytes in UTF-8, so stripping before or after the
  decoding gives the same text.)
\<close>

definition VisualizeWarAndPeaceDataset_init ::
  "char list \<Rightarrow> string \<Rightarrow> VisualizeWarAndPeaceDataset" where
  "VisualizeWarAndPeaceDataset_init vocab raw_file =
     (let raw_text = strip raw_file
      in \<lparr>vocabulary = vocab,
          data = split_lines raw_text,
          char2index = dict_of (map (\<lambda>(i, x). (x, i)) (enumerate_py vocab)),
          index2char = dict_of (map (\<lambda>(i, x). (i, x)) (enumerate_py vocab))\<rparr>)"

definition len :: "VisualizeWarAndPeaceDataset \<Rightarrow> nat" where
  \<comment> \<open>\<open>__len__\<close>\<close>
  "len ds = length (data ds)"

definition getitem :: "VisualizeWarAndPeaceDataset \<Rightarrow> int \<Rightarrow> error + (ndarray \<times> int)" where
  \<comment> \<open>\<open>__getitem__\<close>\<close>
  "getitem ds index =
     (case list_get (data ds) index of
        Inl e \<Rightarrow> Inl e
      | Inr line \<Rightarrow>
          (case lookup_each (char2index ds) line of
             Inl e \<Rightarrow> Inl e
           | Inr indices \<Rightarrow> Inr (np_array indices, - 1)))"

datatype sequence = Tensor index_tensor | Array ndarray

text \<open>
  \<open>convert_to_chars\<close>: a tensor is squeezed along dimension 0 and turned into a list first. With
  one row that list is the row; with no row it is empty; with more rows it is a list of lists,
  and a list is no dictionary key (\<open>TypeError\<close>).
\<close>

definition convert_to_chars :: "VisualizeWarAndPeaceDataset \<Rightarrow> sequence \<Rightarrow> error + char list" where
  "convert_to_chars ds s =
     (case s of
        Tensor t \<Rightarrow>
          (case rows t of
             [] \<Rightarrow> Inr []
           | [row] \<Rightarrow> lookup_each (index2char ds) row
           | _ \<Rightarrow> Inl TypeError)
      | Array a \<Rightarrow> lookup_each (index2char ds) (entries a))"

section \<open>VisualizeInternalGates\<close>

definition PADDING_TOKEN :: nat where "PADDING_TOKEN = 0"
definition CKPT_VOCABULARY_SIZE :: nat where "CKPT_VOCABULARY_SIZE = 82"
definition CKPT_EMBEDDING_DIM :: nat where "CKPT_EMBEDDING_DIM = 256"
definition CKPT_HIDDEN_SIZE :: nat where "CKPT_HIDDEN_SIZE = 128"

record Embedding =
  num_embeddings :: nat
  embedding_dim :: nat
  padding_idx :: nat
  weight :: tensor

record Linear =
  in_features :: nat
  out_features :: nat
  lin_weight :: tensor
  bias :: "real list"

record VisualizeInternalGates =
  embedding :: Embedding
  rnn_model :: VisualizeCoupledLSTMCell
  classifier :: Linear

text \<open>
  The constructors fill every parameter with random numbers. \<open>rnd name i j\<close> is the number
  drawn for entry \<open>(i, j)\<close> of the parameter \<open>name\<close> (entry \<open>(0, j)\<close> for a vector);
  \<open>nn.Embedding\<close> sets the row of the padding index to zero afterwards.
\<close>

type_synonym draws = "string \<Rightarrow> nat \<Rightarrow> nat \<Rightarrow> real"

definition filled :: "nat \<Rightarrow> nat \<Rightarrow> (nat \<Rightarrow> nat \<Rightarrow> real) \<Rightarrow> tensor" where
  "filled r c g = map (\<lambda>i. map (\<lambda>j. g i j) [0..<c]) [0..<r]"

definition nn_Embedding :: "draws \<Rightarrow> nat \<Rightarrow> nat \<Rightarrow> nat \<Rightarrow> Embedding" where
  "nn_Embedding rnd n d pad =
     \<lparr>num_embeddings = n, embedding_dim = d, padding_idx = pad,
      weight = filled n d (\<lambda>i j. if i = pad then 0 else rnd ''embedding.weight'' i j)\<rparr>"

definition nn_Linear :: "draws \<Rightarrow> nat \<Rightarrow> nat \<Rightarrow> Linear" where
  "nn_Linear rnd n_in n_out =
     \<lparr>in_features = n_in, out_features = n_out,
      lin_weight = filled n_out n_in (rnd ''classifier.weight''),
      bias = map (rnd ''classifier.bias'' 0) [0..<n_out]\<rparr>"

definition VisualizeCoupledLSTMCell_init ::
  "draws \<Rightarrow> nat \<Rightarrow> nat \<Rightarrow> VisualizeCoupledLSTMCell" where
  "VisualizeCoupledLSTMCell_init rnd n_in n_hidden =
     \<lparr>input_size = n_in, hidden_size = n_hidden,
      W_f = filled n_hidden (n_hidden + n_in) (rnd ''rnn_model.W_f''),
      W_c = filled n_hidden (n_hidden + n_in) (rnd ''rnn_model.W_c''),
      W_o = filled n_hidden (n_hidden + n_in) (rnd ''rnn_model.W_o'')\<rparr>"

definition VisualizeInternalGates_init :: "draws \<Rightarrow> VisualizeInternalGates" where
  "VisualizeInternalGates_init rnd =
     (let vocabulary_size = CKPT_VOCABULARY_SIZE;
          embedding_dim = CKPT_EMBEDDING_DIM;
          hidden_size = CKPT_HIDDEN_SIZE
      in \<lparr>embedding = nn_Embedding rnd vocabulary_size embedding_dim PADDING_TOKEN,
          rnn_model = VisualizeCoupledLSTMCell_init rnd embedding_dim hidden_size,
          classifier = nn_Linear rnd hidden_size vocabulary_size\<rparr>)"

text \<open>
  The sizes and shapes that the constructor gives a model are an invariant of it:
  \<open>load_state_dict\<close> refuses parameters of other shapes.
\<close>

definition model_shaped :: "VisualizeInternalGates \<Rightarrow> bool" where
  "model_shaped m \<longleftrightarrow>
     num_embeddings (embedding m) = CKPT_VOCABULARY_SIZE \<and>
     embedding_dim (embedding m) = CKPT_EMBEDDING_DIM \<and>
     has_shape (weight (embedding m)) CKPT_VOCABULARY_SIZE CKPT_EMBEDDING_DIM \<and>
     input_size (rnn_model m) = CKPT_EMBEDDING_DIM \<and>
     hidden_size (rnn_model m) = CKPT_HIDDEN_SIZE \<and>
     cell_shaped (rnn_model m) \<and>
     in_features (classifier m) = CKPT_HIDDEN_SIZE \<and>
     out_features (classifier m) = CKPT_VOCABULARY_SIZE \<and>
     has_shape (lin_weight (classifier m)) CKPT_VOCABULARY_SIZE CKPT_HIDDEN_SIZE \<and>
     length (bias (classifier m)) = CKPT_VOCABULARY_SIZE"

text \<open>
  \<open>nn.Embedding\<close> raises a \<open>RuntimeError\<close> for indices that are not integers and an
  \<open>IndexError\<close> for an index outside \<open>0 .. num_embeddings - 1\<close>. Its result has shape
  \<open>(batch, total_steps, embedding_dim)\<close>.
\<close>

definition Embedding_forward :: "Embedding \<Rightarrow> index_tensor \<Rightarrow> error + tensor list" where
  "Embedding_forward emb t =
     (if t_dtype t \<noteq> int64 then Inl RuntimeError
      else if \<not> list_all (list_all (\<lambda>i. 0 \<le> i \<and> i < int (num_embeddings emb))) (rows t)
        then Inl IndexError
      else Inr (map (map (\<lambda>i. weight emb ! nat i)) (rows t)))"

definition Linear_forward :: "Linear \<Rightarrow> tensor \<Rightarrow> error + tensor" where
  \<comment> \<open>a \<open>RuntimeError\<close> when the rows of the input do not have \<open>in_features\<close> entries\<close>
  "Linear_forward l inp =
     (if map length inp \<noteq> replicate (length inp) (in_features l) then Inl RuntimeError
      else Inr (linear_bias inp (lin_weight l) (bias l)))"

definition select_step :: "tensor list \<Rightarrow> nat \<Rightarrow> tensor" where
  \<comment> \<open>\<open>data[:, step, :]\<close>\<close>
  "select_step dat step = map (\<lambda>row. row ! step) dat"

fun zip_star :: "gate_signals list \<Rightarrow> tensor list list" where
  \<comment> \<open>\<open>list(zip(*internals))\<close> for a list of triples\<close>
  "zip_star [] = []"
| "zip_star gs = [map fst gs, map (fst \<circ> snd) gs, map (snd \<circ> snd) gs]"

fun steps_loop ::
  "VisualizeCoupledLSTMCell \<Rightarrow> tensor list \<Rightarrow> nat list \<Rightarrow> lstm_state option
     \<Rightarrow> gate_signals list \<Rightarrow> error + (lstm_state option \<times> gate_signals list)" where
  \<comment> \<open>the loop \<open>for step in range(total_steps)\<close>, over the steps still to run\<close>
  "steps_loop cell dat [] state internals = Inr (state, internals)"
| "steps_loop cell dat (step # steps) state internals =
     (case VisualizeCoupledLSTMCell_forward cell (select_step dat step) state of
        Inl e \<Rightarrow> Inl e
      | Inr (next_h, next_c, gate_signals) \<Rightarrow>
          steps_loop cell dat steps (Some (next_h, next_c)) (internals @ [gate_signals]))"

type_synonym outputs = "string \<rightharpoonup> tensor list"

definition VisualizeInternalGates_forward ::
  "VisualizeInternalGates \<Rightarrow> index_tensor \<Rightarrow> error + (tensor \<times> outputs)" where
  "VisualizeInternalGates_forward m batch_reviews =
     (case Embedding_forward (embedding m) batch_reviews of
        Inl e \<Rightarrow> Inl e
      | Inr dat \<Rightarrow>
          (case steps_loop (rnn_model m) dat [0..<total_steps batch_reviews] None [] of
             Inl e \<Rightarrow> Inl e
           | Inr (state, internals) \<Rightarrow>
               (case state of
                  None \<Rightarrow> Inl TypeError
                | Some (next_h, next_c) \<Rightarrow>
                    (case Linear_forward (classifier m) next_h of
                       Inl e \<Rightarrow> Inl e
                     | Inr logits \<Rightarrow>
                         (let internals' = zip_star internals
                          in case (list_get internals' 0, list_get internals' 1,
                                   list_get internals' 2) of
                               (Inr i0, Inr i1, Inr i2) \<Rightarrow>
                                 Inr (logits,
                                      [''update_signals'' \<mapsto> i0,
                                       ''reset_signals'' \<mapsto> i1,
                                       ''cell_state_candidates'' \<mapsto> i2])
                             | _ \<Rightarrow> Inl IndexError)))))"

subsection \<open>What the claims about the forward pass speak of\<close>

text \<open>
  \<open>gate_history cell xs state\<close> lists the gate signals that the cell produces when it is run
  over the inputs \<open>xs\<close>, one after the other, from \<open>state\<close>. \<open>inside lo hi t\<close> says that every
  entry of \<open>t\<close> lies strictly between \<open>lo\<close> and \<open>hi\<close>. \<open>tokens_ok t\<close> says that the entries of
  an index tensor are indices of the vocabulary of the checkpoint.
\<close>

fun gate_history ::
  "VisualizeCoupledLSTMCell \<Rightarrow> tensor list \<Rightarrow> lstm_state option \<Rightarrow> gate_signals list" where
  "gate_history cell [] state = []"
| "gate_history cell (x # xs) state =
     (case VisualizeCoupledLSTMCell_forward cell x state of
        Inl e \<Rightarrow> []
      | Inr (next_h, next_c, gate_signals) \<Rightarrow>
          gate_signals # gate_history cell xs (Some (next_h, next_c)))"

definition inside :: "real \<Rightarrow> real \<Rightarrow> tensor \<Rightarrow> bool" where
  "inside lo hi t \<longleftrightarrow> list_all (list_all (\<lambda>v. lo < v \<and> v < hi)) t"

definition gates_inside :: "gate_signals \<Rightarrow> bool" where
  "gates_inside g \<longleftrightarrow>
     (case g of (f, o_gate, c_tilde) \<Rightarrow>
        inside 0 1 f \<and> inside 0 1 o_gate \<and> inside (- 1) 1 c_tilde)"

definition state_inside :: "nat \<Rightarrow> nat \<Rightarrow> lstm_state option \<Rightarrow> bool" where
  \<comment> \<open>no state yet, or a hidden and a cell state of shape \<open>(batch, hidden)\<close>, the cell state
      strictly between -1 and 1\<close>
  "state_inside batch hidden state \<longleftrightarrow>
     (case state of
        None \<Rightarrow> True
      | Some (h, c) \<Rightarrow>
          has_shape h batch hidden \<and> has_shape c batch hidden \<and> inside (- 1) 1 c)"

definition data_shaped :: "tensor list \<Rightarrow> nat \<Rightarrow> nat \<Rightarrow> nat \<Rightarrow> bool" where
  \<comment> \<open>shape \<open>(batch, steps, width)\<close>\<close>
  "data_shaped dat batch steps width \<longleftrightarrow>
     length dat = batch \<and> list_all (\<lambda>row. has_shape row steps width) dat"

definition tokens_ok :: "index_tensor \<Rightarrow> bool" where
  "tokens_ok t \<longleftrightarrow>
     list_all (list_all (\<lambda>i. 0 \<le> i \<and> i < int CKPT_VOCABULARY_SIZE)) (rows t)"

section \<open>Rendering\<close>

text \<open>
  What reaches the file system and the console is recorded as a list of effects. A saved
  figure is kept as what \<open>sns.heatmap\<close> is asked to draw.
\<close>

record heatmap =
  cells :: tensor
  xticklabels :: "char list"
  vmin :: real
  vmax :: real
  figsize :: "real \<times> real"

datatype effect = Print string | MakeDirs string | SaveFig string heatmap

definition transpose_t :: "tensor \<Rightarrow> tensor" where
  \<comment> \<open>\<open>.T\<close> of a two-dimensional array\<close>
  "transpose_t t = (case t of [] \<Rightarrow> [] | r # _ \<Rightarrow> map (\<lambda>j. map (\<lambda>row. row ! j) t) [0..<length r])"

definition vmin_of :: "string \<Rightarrow> error + real" where
  \<comment> \<open>the lower end of the colour range, \<open>ValueError\<close> for a name that is none of the three\<close>
  "vmin_of gate_name =
     (if gate_name \<in> set [''update_signals'', ''reset_signals''] then Inr 0
      else if gate_name = ''cell_state_candidates'' then Inr (- 1)
      else Inl ValueError)"

definition visualize_internals ::
  "nat \<Rightarrow> char list \<Rightarrow> string \<Rightarrow> tensor list \<Rightarrow> string \<Rightarrow> error + effect list" where
  \<comment> \<open>\<open>torch.cat\<close> raises a \<open>RuntimeError\<close> on an empty sequence of tensors\<close>
  "visualize_internals sequence_id sequence gate_name states saving_dir =
     (if states = [] then Inl RuntimeError
      else
        let states' = transpose_t (concat states);
            hidden_size = length states';
            time_stamps = length (concat states);
            size = (real time_stamps / 5, real hidden_size / 5)
        in case vmin_of gate_name of
             Inl e \<Rightarrow> Inl e
           | Inr v \<Rightarrow>
               Inr [MakeDirs saving_dir,
                    SaveFig (path_join saving_dir
                               (''S'' @ format_02d sequence_id @ ''_'' @ lower gate_name @ ''.png''))
                      \<lparr>cells = states', xticklabels = sequence, vmin = v, vmax = 1,
                       figsize = size\<rparr>])"

section \<open>war_and_peace_visualizer\<close>

text \<open>
  \<open>torch.load\<close> gives the dictionary stored in \<open>data/war_and_peace_model_checkpoint.pt\<close>: its
  vocabulary and the parameters of the trained model.
\<close>

record checkpoint =
  ckpt_vocabulary :: "char list"
  ckpt_parameters :: VisualizeInternalGates

record run =
  effects :: "effect list"
  raised :: "error option"

fun gates_loop ::
  "VisualizeWarAndPeaceDataset \<Rightarrow> nat \<Rightarrow> index_tensor \<Rightarrow> outputs \<Rightarrow> string list \<Rightarrow> run" where
  \<comment> \<open>the loop \<open>for gate in [...]\<close>; the arguments of the call are evaluated from left to right\<close>
  "gates_loop ds step sequences outs [] = \<lparr>effects = [], raised = None\<rparr>"
| "gates_loop ds step sequences outs (gate # gates) =
     (case convert_to_chars ds (Tensor sequences) of
        Inl e \<Rightarrow> \<lparr>effects = [], raised = Some e\<rparr>
      | Inr chars \<Rightarrow>
          (case dict_get outs gate of
             Inl e \<Rightarrow> \<lparr>effects = [], raised = Some e\<rparr>
           | Inr states \<Rightarrow>
               (case visualize_internals step chars gate states ''visualize/'' of
                  Inl e \<Rightarrow> \<lparr>effects = [], raised = Some e\<rparr>
                | Inr drawn \<Rightarrow>
                    (let rest = gates_loop ds step sequences outs gates
                     in rest\<lparr>effects := drawn @ effects rest\<rparr>))))"

definition visualize_step ::
  "VisualizeInternalGates \<Rightarrow> VisualizeWarAndPeaceDataset \<Rightarrow> nat \<Rightarrow> run" where
  \<comment> \<open>one round of the loop over the data loader: the loader fetches item \<open>step\<close> and collates
      it, then the body runs\<close>
  "visualize_step model ds step =
     (case getitem ds (int step) of
        Inl e \<Rightarrow> \<lparr>effects = [], raised = Some e\<rparr>
      | Inr item \<Rightarrow>
          (case collate item of (sequences, labels) \<Rightarrow>
             (case VisualizeInternalGates_forward model sequences of
                Inl e \<Rightarrow> \<lparr>effects = [Print ''here''], raised = Some e\<rparr>
              | Inr (logits, outs) \<Rightarrow>
                  (let drawn = gates_loop ds step sequences outs
                                 [''update_signals'', ''reset_signals'', ''cell_state_candidates'']
                   in drawn\<lparr>effects := Print ''here'' # effects drawn\<rparr>))))"

fun loader_loop ::
  "VisualizeInternalGates \<Rightarrow> VisualizeWarAndPeaceDataset \<Rightarrow> nat list \<Rightarrow> run" where
  \<comment> \<open>\<open>for step, (sequences, labels) in enumerate(data_loader)\<close>, over the steps still to run\<close>
  "loader_loop model ds [] = \<lparr>effects = [], raised = None\<rparr>"
| "loader_loop model ds (step # steps) =
     (let first = visualize_step model ds step
      in case raised first of
           Some e \<Rightarrow> first
         | None \<Rightarrow>
             (let rest = loader_loop model ds steps
              in rest\<lparr>effects := effects first @ effects rest\<rparr>))"

text \<open>
  The model is constructed and used as constructed: the two lines that would load the
  parameters of the checkpoint into it and switch it to evaluation are commented out in the
  source.
\<close>

definition war_and_peace_visualizer :: "draws \<Rightarrow> checkpoint \<Rightarrow> string \<Rightarrow> run" where
  "war_and_peace_visualizer rnd state_dict raw_file =
     (let model = VisualizeInternalGates_init rnd;
          vocab = ckpt_vocabulary state_dict;
          dataset = VisualizeWarAndPeaceDataset_init vocab raw_file
      in loader_loop model dataset [0..<len dataset])"

definition saved_paths :: "run \<Rightarrow> string list" where
  \<comment> \<open>the files written, in the order of writing\<close>
  "saved_paths r = concat (map (\<lambda>e. case e of SaveFig p _ \<Rightarrow> [p] | _ \<Rightarrow> []) (effects r))"

subsection \<open>A small vocabulary and file for the examples\<close>

definition example_vocabulary :: "char list" where
  "example_vocabulary = ''aba''"

definition example_file :: string where
  "example_file = ''ab'' @ [CHR 0x0A] @ ''ba'' @ [CHR 0x0A]"

subsection \<open>A model and tensors for the examples\<close>

definition zero_draws :: draws where
  "zero_draws = (\<lambda>name i j. 0)"

definition example_tensor :: index_tensor where
  "example_tensor = \<lparr>t_dtype = int64, total_steps = 2, rows = [[0, 1]]\<rparr>"

definition example_data :: "tensor list" where
  \<comment> \<open>shape \<open>(1, 2, 1)\<close>\<close>
  "example_data = [[[4], [3]]]"

definition empty_tensor :: index_tensor where
  \<comment> \<open>shape \<open>(1, 0)\<close>\<close>
  "empty_tensor = \<lparr>t_dtype = int64, total_steps = 0, rows = [[]]\<rparr>"

definition out_of_range_tensor :: index_tensor where
  \<comment> \<open>shape \<open>(1, 1)\<close>, with an index that the vocabulary of 82 tokens does not have\<close>
  "out_of_range_tensor = \<lparr>t_dtype = int64, total_steps = 1, rows = [[82]]\<rparr>"

section \<open>Facts about tensors\<close>

lemma has_shape_length: "has_shape t r c \<Longrightarrow> length t = r"
  unfolding has_shape_def by (metis length_map length_replicate)

lemma has_shape_row: "has_shape t r c \<Longrightarrow> b < r \<Longrightarrow> length (t ! b) = c"
  unfolding has_shape_def by (metis length_map nth_map nth_replicate length_replicate)

lemma has_shapeI: "length t = r \<Longrightarrow> (\<And>b. b < r \<Longrightarrow> length (t ! b) = c) \<Longrightarrow> has_shape t r c"
  unfolding has_shape_def by (simp add: list_eq_iff_nth_eq)

lemma sum_list_map2_mult:
  fixes xs ys :: "real list"
  shows "length xs = length ys \<Longrightarrow> sum_list (map2 (*) xs ys) = (\<Sum>k < length ys. ys ! k * xs ! k)"
proof (induction xs ys rule: list_induct2)
  case Nil
  then show ?case by simp
next
  case (Cons x xs y ys)
  have "(\<Sum>k < Suc (length ys). (y # ys) ! k * (x # xs) ! k)
          = y * x + (\<Sum>k < length ys. ys ! k * xs ! k)"
    by (simp add: sum.lessThan_Suc_shift del: sum.lessThan_Suc)
  with Cons show ?case by (simp add: mult.commute del: sum.lessThan_Suc)
qed

lemma linear_nth:
  "b < length inp \<Longrightarrow> j < length Wt \<Longrightarrow>
   linear inp Wt ! b ! j = sum_list (map2 (*) (inp ! b) (Wt ! j))"
  by (simp add: linear_def)

lemma linear_shape: "has_shape (linear inp Wt) (length inp) (length Wt)"
  by (rule has_shapeI) (simp_all add: linear_def)

lemma cat_dim1_nth:
  "b < length h \<Longrightarrow> b < length x \<Longrightarrow> cat_dim1 h x ! b = h ! b @ x ! b"
  by (simp add: cat_dim1_def)

lemma stacked_append: "(h ! b @ x ! b) ! k = stacked h x b k"
  by (simp add: stacked_def nth_append)

lemma tmap_nth: "b < length t \<Longrightarrow> j < length (t ! b) \<Longrightarrow> tmap g t ! b ! j = g (t ! b ! j)"
  by (simp add: tmap_def)

lemma tmap_shape: "has_shape t r c \<Longrightarrow> has_shape (tmap g t) r c"
  by (simp add: has_shape_def tmap_def comp_def)

lemma tmul_nth:
  "has_shape a r c \<Longrightarrow> has_shape b r c \<Longrightarrow> i < r \<Longrightarrow> j < c \<Longrightarrow>
   tmul a b ! i ! j = a ! i ! j * b ! i ! j"
  by (simp add: tmul_def has_shape_length has_shape_row)

lemma tadd_nth:
  "has_shape a r c \<Longrightarrow> has_shape b r c \<Longrightarrow> i < r \<Longrightarrow> j < c \<Longrightarrow>
   tadd a b ! i ! j = a ! i ! j + b ! i ! j"
  by (simp add: tadd_def has_shape_length has_shape_row)

lemma tmul_shape: "has_shape a r c \<Longrightarrow> has_shape b r c \<Longrightarrow> has_shape (tmul a b) r c"
  by (rule has_shapeI) (simp_all add: tmul_def has_shape_length has_shape_row)

lemma tadd_shape: "has_shape a r c \<Longrightarrow> has_shape b r c \<Longrightarrow> has_shape (tadd a b) r c"
  by (rule has_shapeI) (simp_all add: tadd_def has_shape_length has_shape_row)

lemma one_minus_nth:
  "b < length t \<Longrightarrow> j < length (t ! b) \<Longrightarrow> one_minus t ! b ! j = 1 - t ! b ! j"
  by (simp add: one_minus_def tmap_nth)

lemma one_minus_shape: "has_shape t r c \<Longrightarrow> has_shape (one_minus t) r c"
  by (simp add: one_minus_def tmap_shape)

section \<open>The cells follow the published equations\<close>

lemma affine_cong: "(\<And>k. k < length (Wt ! j) \<Longrightarrow> v k = w k) \<Longrightarrow> affine Wt j v = affine Wt j w"
  by (simp add: affine_def)

lemma gate_pre:
  assumes W: "has_shape Wt H n"
    and cat: "map length (cat_dim1 h x) = replicate (length x) n"
    and len: "length h = length x"
    and b: "b < length x" and j: "j < H"
  shows "linear (cat_dim1 h x) Wt ! b ! j = affine Wt j (stacked h x b)"
proof -
  have lcat: "length (cat_dim1 h x) = length x"
    using len by (simp add: cat_dim1_def)
  have row: "cat_dim1 h x ! b = h ! b @ x ! b"
    using b len by (simp add: cat_dim1_nth)
  have "length (cat_dim1 h x ! b) = n"
    using cat b lcat by (metis length_map nth_map nth_replicate)
  then have rowlen: "length (h ! b @ x ! b) = n"
    using row by simp
  have wlen: "length (Wt ! j) = n" "j < length Wt"
    using W j by (simp_all add: has_shape_row has_shape_length)
  have "linear (cat_dim1 h x) Wt ! b ! j = sum_list (map2 (*) (h ! b @ x ! b) (Wt ! j))"
    using b lcat wlen(2) row by (simp add: linear_nth)
  also have "\<dots> = (\<Sum>k < length (Wt ! j). Wt ! j ! k * (h ! b @ x ! b) ! k)"
    using rowlen wlen(1) by (intro sum_list_map2_mult) simp
  finally show ?thesis
    by (simp add: affine_def stacked_append)
qed

lemma gate_shape:
  assumes "has_shape Wt H n" "length h = length x"
  shows "has_shape (tmap g (linear (cat_dim1 h x) Wt)) (length x) H"
proof -
  have "length (cat_dim1 h x) = length x"
    using assms(2) by (simp add: cat_dim1_def)
  moreover have "length Wt = H"
    using assms(1) by (rule has_shape_length)
  ultimately show ?thesis
    using linear_shape [of "cat_dim1 h x" Wt] by (simp add: tmap_shape)
qed

lemma nth_shaped: "has_shape t r c \<Longrightarrow> b < r \<Longrightarrow> j < c \<Longrightarrow> b < length t \<and> j < length (t ! b)"
  by (simp add: has_shape_length has_shape_row)

lemma coupled_step:
  assumes shaped: "cell_shaped cell" and fits: "fits cell x h c"
  shows "\<exists>next_h next_c f o_gate c_tilde.
           VisualizeCoupledLSTMCell_forward cell x (Some (h, c))
             = Inr (next_h, next_c, (f, o_gate, c_tilde)) \<and>
           has_shape next_h (length x) (hidden_size cell) \<and>
           has_shape next_c (length x) (hidden_size cell) \<and>
           has_shape f (length x) (hidden_size cell) \<and>
           has_shape o_gate (length x) (hidden_size cell) \<and>
           has_shape c_tilde (length x) (hidden_size cell) \<and>
           (\<forall>b < length x. \<forall>j < hidden_size cell.
              f ! b ! j = sigmoid (affine (W_f cell) j (stacked h x b)) \<and>
              o_gate ! b ! j = sigmoid (affine (W_o cell) j (stacked h x b)) \<and>
              c_tilde ! b ! j = tanh (affine (W_c cell) j (stacked h x b)) \<and>
              next_c ! b ! j = f ! b ! j * c ! b ! j + (1 - f ! b ! j) * c_tilde ! b ! j \<and>
              next_h ! b ! j = o_gate ! b ! j * tanh (next_c ! b ! j))"
proof -
  define B H where "B = length x" and "H = hidden_size cell"
  define n where "n = hidden_size cell + input_size cell"
  define f where "f = tmap sigmoid (linear (cat_dim1 h x) (W_f cell))"
  define og where "og = tmap sigmoid (linear (cat_dim1 h x) (W_o cell))"
  define ct where "ct = tmap tanh (linear (cat_dim1 h x) (W_c cell))"
  define nc where "nc = tadd (tmul f c) (tmul (one_minus f) ct)"
  define nh where "nh = tmul og (tmap tanh nc)"
  have W: "has_shape (W_f cell) H n" "has_shape (W_o cell) H n" "has_shape (W_c cell) H n"
    using shaped by (simp_all add: cell_shaped_def H_def n_def)
  have len: "length h = length x"
    and cat: "map length (cat_dim1 h x) = replicate (length x) n"
    and c: "has_shape c B H"
    using fits by (simp_all add: fits_def B_def H_def n_def)
  have sf: "has_shape f B H" and so: "has_shape og B H" and sc: "has_shape ct B H"
    unfolding f_def og_def ct_def B_def using W len by (simp_all add: gate_shape)
  have snc: "has_shape nc B H"
    unfolding nc_def using sf sc c by (intro tadd_shape tmul_shape one_minus_shape)
  have snh: "has_shape nh B H"
    unfolding nh_def using so snc by (intro tmul_shape tmap_shape)
  have run: "VisualizeCoupledLSTMCell_forward cell x (Some (h, c)) = Inr (nh, nc, (f, og, ct))"
    using fits
    by (simp add: VisualizeCoupledLSTMCell_forward_def Let_def f_def og_def ct_def nc_def nh_def)
  have eqs: "f ! b ! j = sigmoid (affine (W_f cell) j (stacked h x b)) \<and>
             og ! b ! j = sigmoid (affine (W_o cell) j (stacked h x b)) \<and>
             ct ! b ! j = tanh (affine (W_c cell) j (stacked h x b)) \<and>
             nc ! b ! j = f ! b ! j * c ! b ! j + (1 - f ! b ! j) * ct ! b ! j \<and>
             nh ! b ! j = og ! b ! j * tanh (nc ! b ! j)"
    if b: "b < length x" and j: "j < hidden_size cell" for b j
  proof -
    have bj: "b < B" "j < H" using b j by (simp_all add: B_def H_def)
    have lin: "b < length (linear (cat_dim1 h x) Wt) \<and> j < length (linear (cat_dim1 h x) Wt ! b)"
      if "has_shape Wt H n" for Wt
      using linear_shape [of "cat_dim1 h x" Wt] that bj len
      by (intro nth_shaped [where r = B and c = H]) (simp_all add: cat_dim1_def has_shape_length B_def)
    have 1: "f ! b ! j = sigmoid (affine (W_f cell) j (stacked h x b))"
      unfolding f_def using lin [OF W(1)] gate_pre [OF W(1) cat len b] bj by (simp add: tmap_nth)
    have 2: "og ! b ! j = sigmoid (affine (W_o cell) j (stacked h x b))"
      unfolding og_def using lin [OF W(2)] gate_pre [OF W(2) cat len b] bj by (simp add: tmap_nth)
    have 3: "ct ! b ! j = tanh (affine (W_c cell) j (stacked h x b))"
      unfolding ct_def using lin [OF W(3)] gate_pre [OF W(3) cat len b] bj by (simp add: tmap_nth)
    have om: "one_minus f ! b ! j = 1 - f ! b ! j"
      using nth_shaped [OF sf bj] by (simp add: one_minus_nth)
    have 4: "nc ! b ! j = f ! b ! j * c ! b ! j + (1 - f ! b ! j) * ct ! b ! j"
      unfolding nc_def
      using tadd_nth [OF tmul_shape [OF sf c] tmul_shape [OF one_minus_shape [OF sf] sc] bj]
        tmul_nth [OF sf c bj] tmul_nth [OF one_minus_shape [OF sf] sc bj] om
      by simp
    have 5: "nh ! b ! j = og ! b ! j * tanh (nc ! b ! j)"
      unfolding nh_def
      using tmul_nth [OF so tmap_shape [OF snc] bj] nth_shaped [OF snc bj]
      by (simp add: tmap_nth)
    from 1 2 3 4 5 show ?thesis by blast
  qed
  show ?thesis
    using run snh snc sf so sc eqs unfolding B_def H_def by blast
qed

lemma cat_row_length:
  assumes "map length (cat_dim1 h x) = replicate (length x) n" "length h = length x" "b < length x"
  shows "length (h ! b) + length (x ! b) = n"
proof -
  have "map length (cat_dim1 h x) ! b = n"
    using assms by simp
  moreover have "b < length (cat_dim1 h x)"
    using assms by (simp add: cat_dim1_def)
  ultimately have "length (cat_dim1 h x ! b) = n"
    by (simp only: nth_map)
  then show ?thesis
    using assms by (simp add: cat_dim1_nth)
qed

lemma reset_pre:
  assumes W: "has_shape Wt H n"
    and r: "has_shape r (length x) H" and h: "has_shape h (length x) H"
    and cat: "map length (cat_dim1 h x) = replicate (length x) n"
    and b: "b < length x" and j: "j < H"
  shows "linear (cat_dim1 (tmul r h) x) Wt ! b ! j = affine Wt j (reset_stacked r h x b)"
proof -
  have rh: "has_shape (tmul r h) (length x) H"
    using r h by (rule tmul_shape)
  have len: "length (tmul r h) = length x" "length h = length x"
    using rh h by (simp_all add: has_shape_length)
  have rows: "length (tmul r h ! b) = H" "length (h ! b) = H"
    using rh h b by (simp_all add: has_shape_row)
  have n: "H + length (x ! b) = n"
    using cat_row_length [OF cat len(2) b] rows by simp
  have wlen: "length (Wt ! j) = n" "j < length Wt"
    using W j by (simp_all add: has_shape_row has_shape_length)
  have lcat: "b < length (cat_dim1 (tmul r h) x)"
    using b len by (simp add: cat_dim1_def)
  have row: "cat_dim1 (tmul r h) x ! b = tmul r h ! b @ x ! b"
    using b len by (simp add: cat_dim1_nth)
  have "linear (cat_dim1 (tmul r h) x) Wt ! b ! j
          = sum_list (map2 (*) (tmul r h ! b @ x ! b) (Wt ! j))"
    using lcat wlen(2) row by (simp add: linear_nth)
  also have "\<dots> = (\<Sum>k < length (Wt ! j). Wt ! j ! k * (tmul r h ! b @ x ! b) ! k)"
    using rows n wlen(1) by (intro sum_list_map2_mult) simp
  also have "\<dots> = affine Wt j (\<lambda>k. (tmul r h ! b @ x ! b) ! k)"
    by (simp add: affine_def)
  also have "\<dots> = affine Wt j (reset_stacked r h x b)"
  proof (rule affine_cong)
    fix k
    show "(tmul r h ! b @ x ! b) ! k = reset_stacked r h x b k"
      using rows tmul_nth [OF r h b, of k]
      by (simp add: nth_append reset_stacked_def)
  qed
  finally show ?thesis .
qed

text \<open>
  C3. For a cell with its parameters as \<open>__init__\<close> shapes them, an input \<open>x\<close> and a previous
  state \<open>(h, c)\<close> that torch accepts, \<open>VisualizeCoupledLSTMCell.forward\<close> returns
  \<open>(next_h, next_c, (f, o, c_tilde))\<close> where, for every batch row and hidden unit,
  \<open>f = sigmoid(W_f\<cdot>[h;x])\<close>, \<open>o = sigmoid(W_o\<cdot>[h;x])\<close>, \<open>c_tilde = tanh(W_c\<cdot>[h;x])\<close>,
  \<open>next_c = f\<odot>c + (1 - f)\<odot>c_tilde\<close> and \<open>next_h = o\<odot>tanh(next_c)\<close>.
\<close>

theorem coupled_lstm_equations:
  assumes shaped: "cell_shaped cell" and fits: "fits cell x h c"
  shows "\<exists>next_h next_c f o_gate c_tilde.
           VisualizeCoupledLSTMCell_forward cell x (Some (h, c))
             = Inr (next_h, next_c, (f, o_gate, c_tilde)) \<and>
           has_shape next_h (length x) (hidden_size cell) \<and>
           has_shape next_c (length x) (hidden_size cell) \<and>
           has_shape f (length x) (hidden_size cell) \<and>
           has_shape o_gate (length x) (hidden_size cell) \<and>
           has_shape c_tilde (length x) (hidden_size cell) \<and>
           (\<forall>b < length x. \<forall>j < hidden_size cell.
              f ! b ! j = sigmoid (affine (W_f cell) j (stacked h x b)) \<and>
              o_gate ! b ! j = sigmoid (affine (W_o cell) j (stacked h x b)) \<and>
              c_tilde ! b ! j = tanh (affine (W_c cell) j (stacked h x b)) \<and>
              next_c ! b ! j = f ! b ! j * c ! b ! j + (1 - f ! b ! j) * c_tilde ! b ! j \<and>
              next_h ! b ! j = o_gate ! b ! j * tanh (next_c ! b ! j))"
  using shaped fits by (rule coupled_step)

theorem coupled_lstm_equations_witness:
  "cell_shaped example_cell \<and> fits example_cell [[4]] [[3]] [[1 / 2]] \<and>
   (\<exists>next_h next_c f o_gate c_tilde.
      VisualizeCoupledLSTMCell_forward example_cell [[4]] (Some ([[3]], [[1 / 2]]))
        = Inr (next_h, next_c, (f, o_gate, c_tilde)) \<and>
      f ! 0 ! 0 = sigmoid 11 \<and> o_gate ! 0 ! 0 = sigmoid (- 3) \<and> c_tilde ! 0 ! 0 = tanh 4 \<and>
      next_c ! 0 ! 0 = sigmoid 11 * (1 / 2) + (1 - sigmoid 11) * tanh 4 \<and>
      next_h ! 0 ! 0 = sigmoid (- 3) * tanh (next_c ! 0 ! 0))"
proof -
  have shaped: "cell_shaped example_cell"
    by (simp add: cell_shaped_def example_cell_def has_shape_def)
  have fits: "fits example_cell [[4]] [[3]] [[1 / 2]]"
    by (simp add: fits_def example_cell_def has_shape_def cat_dim1_def)
  have a: "affine (W_f example_cell) 0 (stacked [[3]] [[4]] 0) = 11"
    "affine (W_o example_cell) 0 (stacked [[3]] [[4]] 0) = - 3"
    "affine (W_c example_cell) 0 (stacked [[3]] [[4]] 0) = 4"
    by (simp_all add: affine_def stacked_def example_cell_def lessThan_Suc numeral_2_eq_2)
  from coupled_lstm_equations [OF shaped fits] a shaped fits show ?thesis
    by (auto simp: example_cell_def)
qed

lemma zeros_shape: "has_shape (zeros r c) r c"
  by (simp add: has_shape_def zeros_def)

lemma zeros_nth: "b < r \<Longrightarrow> j < c \<Longrightarrow> zeros r c ! b ! j = 0"
  by (simp add: zeros_def)

text \<open>
  C5. For a GRU cell with its parameters as \<open>__init__\<close> shapes them and an input that torch
  accepts, with \<open>h\<close> the previous hidden state (the zero tensor when \<open>prev_state\<close> is \<open>None\<close>),
  \<open>VisualizeGRUCell.forward\<close> returns \<open>(next_h, (z, r, h_tilde))\<close> where, for every batch row and
  hidden unit, \<open>z = sigmoid(W_z\<cdot>[h;x])\<close>, \<open>r = sigmoid(W_r\<cdot>[h;x])\<close>,
  \<open>h_tilde = tanh(W\<cdot>[r\<odot>h;x])\<close> and \<open>next_h = (1 - z)\<odot>h + z\<odot>h_tilde\<close>.
\<close>

theorem gru_equations:
  assumes shaped: "gru_shaped cell"
    and h: "h = (case prev_state of
                   None \<Rightarrow> zeros (length x) (gru_hidden_size cell) | Some s \<Rightarrow> s)"
    and fits: "gru_fits cell x h"
  shows "\<exists>next_h z r h_tilde.
           VisualizeGRUCell_forward cell x prev_state = Inr (next_h, (z, r, h_tilde)) \<and>
           has_shape next_h (length x) (gru_hidden_size cell) \<and>
           has_shape z (length x) (gru_hidden_size cell) \<and>
           has_shape r (length x) (gru_hidden_size cell) \<and>
           has_shape h_tilde (length x) (gru_hidden_size cell) \<and>
           (\<forall>b < length x. \<forall>j < gru_hidden_size cell.
              (prev_state = None \<longrightarrow> h ! b ! j = 0) \<and>
              z ! b ! j = sigmoid (affine (W_z cell) j (stacked h x b)) \<and>
              r ! b ! j = sigmoid (affine (W_r cell) j (stacked h x b)) \<and>
              h_tilde ! b ! j = tanh (affine (W cell) j (reset_stacked r h x b)) \<and>
              next_h ! b ! j = (1 - z ! b ! j) * h ! b ! j + z ! b ! j * h_tilde ! b ! j)"
proof -
  define B H where "B = length x" and "H = gru_hidden_size cell"
  define n where "n = gru_hidden_size cell + gru_input_size cell"
  define z where "z = tmap sigmoid (linear (cat_dim1 h x) (W_z cell))"
  define r where "r = tmap sigmoid (linear (cat_dim1 h x) (W_r cell))"
  define ht where "ht = tmap tanh (linear (cat_dim1 (tmul r h) x) (W cell))"
  define nh where "nh = tadd (tmul (one_minus z) h) (tmul z ht)"
  have Wt: "has_shape (W_z cell) H n" "has_shape (W_r cell) H n" "has_shape (W cell) H n"
    using shaped by (simp_all add: gru_shaped_def H_def n_def)
  have len: "length h = length x"
    and cat: "map length (cat_dim1 h x) = replicate (length x) n"
    and sh: "has_shape h B H"
    using fits by (simp_all add: gru_fits_def B_def H_def n_def)
  have sz: "has_shape z B H" and sr: "has_shape r B H"
    unfolding z_def r_def B_def using Wt len by (simp_all add: gate_shape)
  have lrh: "length (tmul r h) = length x"
    using tmul_shape [OF sr sh] by (simp add: has_shape_length B_def)
  have sht: "has_shape ht B H"
    unfolding ht_def B_def using Wt(3) lrh by (rule gate_shape)
  have snh: "has_shape nh B H"
    unfolding nh_def using sz sh sht by (intro tadd_shape tmul_shape one_minus_shape)
  have prev: "(case prev_state of
                 None \<Rightarrow> (let batch = length x in zeros batch (gru_hidden_size cell))
               | Some s \<Rightarrow> s) = h"
    using h by (cases prev_state) simp_all
  have run: "VisualizeGRUCell_forward cell x prev_state = Inr (nh, (z, r, ht))"
    unfolding VisualizeGRUCell_forward_def prev
    using fits by (simp add: Let_def z_def r_def ht_def nh_def)
  have eqs: "(prev_state = None \<longrightarrow> h ! b ! j = 0) \<and>
             z ! b ! j = sigmoid (affine (W_z cell) j (stacked h x b)) \<and>
             r ! b ! j = sigmoid (affine (W_r cell) j (stacked h x b)) \<and>
             ht ! b ! j = tanh (affine (W cell) j (reset_stacked r h x b)) \<and>
             nh ! b ! j = (1 - z ! b ! j) * h ! b ! j + z ! b ! j * ht ! b ! j"
    if b: "b < length x" and j: "j < gru_hidden_size cell" for b j
  proof -
    have bj: "b < B" "j < H" using b j by (simp_all add: B_def H_def)
    have lin: "b < length (linear (cat_dim1 g x) Wt) \<and> j < length (linear (cat_dim1 g x) Wt ! b)"
      if "has_shape Wt H n" "length g = length x" for Wt g
      using linear_shape [of "cat_dim1 g x" Wt] that bj
      by (intro nth_shaped [where r = B and c = H]) (simp_all add: cat_dim1_def has_shape_length B_def)
    have 0: "prev_state = None \<longrightarrow> h ! b ! j = 0"
      using h b j by (simp add: zeros_nth)
    have 1: "z ! b ! j = sigmoid (affine (W_z cell) j (stacked h x b))"
      unfolding z_def using lin [OF Wt(1) len] gate_pre [OF Wt(1) cat len b] bj
      by (simp add: tmap_nth)
    have 2: "r ! b ! j = sigmoid (affine (W_r cell) j (stacked h x b))"
      unfolding r_def using lin [OF Wt(2) len] gate_pre [OF Wt(2) cat len b] bj
      by (simp add: tmap_nth)
    have 3: "ht ! b ! j = tanh (affine (W cell) j (reset_stacked r h x b))"
      unfolding ht_def
      using lin [OF Wt(3) lrh] reset_pre [OF Wt(3) sr [unfolded B_def] sh [unfolded B_def] cat b] bj
      by (simp add: tmap_nth)
    have om: "one_minus z ! b ! j = 1 - z ! b ! j"
      using nth_shaped [OF sz bj] by (simp add: one_minus_nth)
    have 4: "nh ! b ! j = (1 - z ! b ! j) * h ! b ! j + z ! b ! j * ht ! b ! j"
      unfolding nh_def
      using tadd_nth [OF tmul_shape [OF one_minus_shape [OF sz] sh] tmul_shape [OF sz sht] bj]
        tmul_nth [OF one_minus_shape [OF sz] sh bj] tmul_nth [OF sz sht bj] om
      by simp
    from 0 1 2 3 4 show ?thesis by blast
  qed
  show ?thesis
    using run snh sz sr sht eqs unfolding B_def H_def by blast
qed

theorem gru_equations_witness:
  "gru_shaped example_gru \<and> gru_fits example_gru [[4]] [[3]] \<and>
   gru_fits example_gru [[4]] (zeros 1 1) \<and>
   (\<exists>next_h z r h_tilde.
      VisualizeGRUCell_forward example_gru [[4]] (Some [[3]]) = Inr (next_h, (z, r, h_tilde)) \<and>
      z ! 0 ! 0 = sigmoid 11 \<and> r ! 0 ! 0 = sigmoid 4 \<and>
      h_tilde ! 0 ! 0 = tanh (2 * (sigmoid 4 * 3) - 4) \<and>
      next_h ! 0 ! 0 = (1 - sigmoid 11) * 3 + sigmoid 11 * h_tilde ! 0 ! 0) \<and>
   (\<exists>next_h z r h_tilde.
      VisualizeGRUCell_forward example_gru [[4]] None = Inr (next_h, (z, r, h_tilde)) \<and>
      z ! 0 ! 0 = sigmoid 8)"
proof -
  have shaped: "gru_shaped example_gru"
    by (simp add: gru_shaped_def example_gru_def has_shape_def)
  have fits: "gru_fits example_gru [[4]] [[3]]"
    by (simp add: gru_fits_def example_gru_def has_shape_def cat_dim1_def)
  have fits0: "gru_fits example_gru [[4]] (zeros 1 1)"
    by (simp add: gru_fits_def example_gru_def has_shape_def cat_dim1_def zeros_def)
  have a: "affine (W_z example_gru) 0 (stacked [[3]] [[4]] 0) = 11"
    "affine (W_r example_gru) 0 (stacked [[3]] [[4]] 0) = 4"
    "affine (W example_gru) 0 (reset_stacked r [[3]] [[4]] 0) = 2 * (r ! 0 ! 0 * 3) - 4"
    "affine (W_z example_gru) 0 (stacked (zeros 1 1) [[4]] 0) = 8" for r
    by (simp_all add: affine_def stacked_def reset_stacked_def zeros_def example_gru_def
        lessThan_Suc numeral_2_eq_2)
  have "\<exists>next_h z r h_tilde.
      VisualizeGRUCell_forward example_gru [[4]] (Some [[3]]) = Inr (next_h, (z, r, h_tilde)) \<and>
      z ! 0 ! 0 = sigmoid 11 \<and> r ! 0 ! 0 = sigmoid 4 \<and>
      h_tilde ! 0 ! 0 = tanh (2 * (sigmoid 4 * 3) - 4) \<and>
      next_h ! 0 ! 0 = (1 - sigmoid 11) * 3 + sigmoid 11 * h_tilde ! 0 ! 0"
    using gru_equations [OF shaped _ fits, of "Some [[3]]"] a
    by (auto simp: example_gru_def)
  moreover have "\<exists>next_h z r h_tilde.
      VisualizeGRUCell_forward example_gru [[4]] None = Inr (next_h, (z, r, h_tilde)) \<and>
      z ! 0 ! 0 = sigmoid 8"
    using gru_equations [OF shaped _ fits0, of None] a
    by (auto simp: example_gru_def)
  ultimately show ?thesis
    using shaped fits fits0 by blast
qed

section \<open>The character encoding\<close>

lemma dict_of_fold:
  "fold (\<lambda>(k, v) d. d(k \<mapsto> v)) kvs d0 = d0 ++ map_of (rev kvs)"
  by (induction kvs arbitrary: d0) (auto simp: map_add_def fun_eq_iff split: option.splits)

lemma dict_of_map_of: "dict_of kvs = map_of (rev kvs)"
  by (simp add: dict_of_def dict_of_fold)

lemma enumerate_py_nth:
  "i < length xs \<Longrightarrow> enumerate_py xs ! i = (int i, xs ! i)"
  by (simp add: enumerate_py_def)

lemma length_enumerate_py: "length (enumerate_py xs) = length xs"
  by (simp add: enumerate_py_def)

lemma distinct_enumerate_keys: "distinct (map fst (enumerate_py xs))"
  by (simp add: enumerate_py_def distinct_map inj_on_def)

lemma index2char_lookup:
  assumes "dict_of (map (\<lambda>(i, x). (i, x)) (enumerate_py vocab)) i = Some x"
  shows "0 \<le> i \<and> nat i < length vocab \<and> vocab ! nat i = x"
proof -
  from assms have "(i, x) \<in> set (enumerate_py vocab)"
    by (auto simp: dict_of_map_of dest!: map_of_SomeD)
  then obtain k where "k < length vocab" "enumerate_py vocab ! k = (i, x)"
    by (auto simp: in_set_conv_nth length_enumerate_py)
  then show ?thesis
    by (auto simp: enumerate_py_nth)
qed

lemma index2char_at:
  assumes "k < length vocab"
  shows "dict_of (map (\<lambda>(i, x). (i, x)) (enumerate_py vocab)) (int k) = Some (vocab ! k)"
proof -
  have "(int k, vocab ! k) \<in> set (rev (enumerate_py vocab))"
    using assms by (auto simp: in_set_conv_nth length_enumerate_py enumerate_py_nth)
  moreover have "distinct (map fst (rev (enumerate_py vocab)))"
    using distinct_enumerate_keys [of vocab] by (simp add: rev_map [symmetric])
  ultimately show ?thesis
    by (simp add: dict_of_map_of)
qed

lemma char2index_lookup:
  assumes "dict_of (map (\<lambda>(i, x). (x, i)) (enumerate_py vocab)) x = Some i"
  shows "0 \<le> i \<and> nat i < length vocab \<and> vocab ! nat i = x"
proof -
  from assms have "(x, i) \<in> set (map (\<lambda>(i, x). (x, i)) (enumerate_py vocab))"
    by (auto simp: dict_of_map_of dest!: map_of_SomeD)
  then have "(i, x) \<in> set (enumerate_py vocab)"
    by auto
  then obtain k where "k < length vocab" "enumerate_py vocab ! k = (i, x)"
    by (auto simp: in_set_conv_nth length_enumerate_py)
  then show ?thesis
    by (auto simp: enumerate_py_nth)
qed

lemma char2index_defined:
  assumes "x \<in> set vocab"
  shows "\<exists>i. dict_of (map (\<lambda>(i, x). (x, i)) (enumerate_py vocab)) x = Some i"
proof -
  from assms obtain k where "k < length vocab" "vocab ! k = x"
    by (auto simp: in_set_conv_nth)
  then have "(int k, x) \<in> set (enumerate_py vocab)"
    by (auto simp: in_set_conv_nth length_enumerate_py enumerate_py_nth)
  then have "x \<in> fst ` set (rev (map (\<lambda>(i, x). (x, i)) (enumerate_py vocab)))"
    by force
  then show ?thesis
    unfolding dict_of_map_of by (metis map_of_eq_None_iff not_Some_eq)
qed

lemma round_trip_char:
  assumes "x \<in> set vocab"
  shows "\<exists>i. 0 \<le> i \<and> i < int (length vocab) \<and>
             dict_of (map (\<lambda>(i, x). (x, i)) (enumerate_py vocab)) x = Some i \<and>
             dict_of (map (\<lambda>(i, x). (i, x)) (enumerate_py vocab)) i = Some x"
proof -
  from char2index_defined [OF assms] obtain i
    where i: "dict_of (map (\<lambda>(i, x). (x, i)) (enumerate_py vocab)) x = Some i" ..
  from char2index_lookup [OF i] have k: "0 \<le> i" "nat i < length vocab" "vocab ! nat i = x"
    by simp_all
  from index2char_at [OF k(2)] k i show ?thesis
    by (intro exI [of _ i]) auto
qed

lemma lookup_round_trip:
  assumes "set line \<subseteq> set vocab"
  shows "\<exists>indices.
           lookup_each (dict_of (map (\<lambda>(i, x). (x, i)) (enumerate_py vocab))) line = Inr indices \<and>
           lookup_each (dict_of (map (\<lambda>(i, x). (i, x)) (enumerate_py vocab))) indices = Inr line \<and>
           length indices = length line \<and>
           list_all (\<lambda>i. 0 \<le> i \<and> i < int (length vocab)) indices"
  using assms
proof (induction line)
  case Nil
  show ?case by simp
next
  case (Cons x line)
  from Cons.prems have "x \<in> set vocab" "set line \<subseteq> set vocab"
    by simp_all
  from round_trip_char [OF this(1)] Cons.IH [OF this(2)] show ?case
    by (auto simp: dict_get_def)
qed

lemma example_data:
  "data (VisualizeWarAndPeaceDataset_init example_vocabulary example_file) = [''ab'', ''ba'']"
  by (simp add: VisualizeWarAndPeaceDataset_init_def example_file_def strip_def is_space_def)

text \<open>
  C9. For a dataset built from a vocabulary and a text, and an index \<open>i\<close> of a line all of whose
  characters are in the vocabulary, \<open>__getitem__(i)\<close> returns an index sequence, and
  \<open>convert_to_chars\<close> applied to it (as the array, or as the tensor the loader makes of it)
  yields exactly the characters of that line, in order.
\<close>

theorem encoding_round_trip:
  assumes ds: "ds = VisualizeWarAndPeaceDataset_init vocab raw_file"
    and line: "list_get (data ds) i = Inr line"
    and known: "set line \<subseteq> set vocab"
  shows "\<exists>a label.
           getitem ds i = Inr (a, label) \<and>
           convert_to_chars ds (Array a) = Inr line \<and>
           convert_to_chars ds (Tensor (fst (collate (a, label)))) = Inr line"
proof -
  from lookup_round_trip [OF known] obtain indices where
    "lookup_each (char2index ds) line = Inr indices"
    "lookup_each (index2char ds) indices = Inr line"
    unfolding ds VisualizeWarAndPeaceDataset_init_def by (auto simp: Let_def)
  with line show ?thesis
    by (simp add: getitem_def convert_to_chars_def np_array_def collate_def)
qed

theorem encoding_round_trip_witness:
  "list_get (data (VisualizeWarAndPeaceDataset_init example_vocabulary example_file)) 1
     = Inr ''ba'' \<and>
   set ''ba'' \<subseteq> set example_vocabulary \<and>
   (\<exists>a label.
      getitem (VisualizeWarAndPeaceDataset_init example_vocabulary example_file) 1
        = Inr (a, label) \<and>
      convert_to_chars (VisualizeWarAndPeaceDataset_init example_vocabulary example_file)
        (Array a) = Inr ''ba'')"
proof -
  have line: "list_get (data (VisualizeWarAndPeaceDataset_init example_vocabulary example_file)) 1
                = Inr ''ba''"
    by (simp add: example_data list_get_def)
  have known: "set ''ba'' \<subseteq> set example_vocabulary"
    by (simp add: example_vocabulary_def)
  from encoding_round_trip [OF refl line known] line known show ?thesis
    by blast
qed

section \<open>The constructed model\<close>

lemma filled_shape: "has_shape (filled r c g) r c"
  by (rule has_shapeI) (simp_all add: filled_def)

lemma init_cell_shaped: "cell_shaped (VisualizeCoupledLSTMCell_init rnd n_in n_hidden)"
  by (simp add: cell_shaped_def VisualizeCoupledLSTMCell_init_def filled_shape)

lemma init_model_shaped: "model_shaped (VisualizeInternalGates_init rnd)"
  by (simp add: model_shaped_def VisualizeInternalGates_init_def Let_def nn_Embedding_def
      nn_Linear_def filled_shape init_cell_shaped)
    (simp add: VisualizeCoupledLSTMCell_init_def)

text \<open>
  C6. Every model that \<open>VisualizeInternalGates.__init__\<close> constructs has an embedding layer with
  82 tokens and dimension 256 (a weight of shape \<open>(82, 256)\<close>), a recurrent cell with input
  size 256 and hidden size 128 (weights of shape \<open>(128, 128 + 256)\<close>), and a classifier
  from 128 hidden units to 82 logits (a weight of shape \<open>(82, 128)\<close> and a bias of length 82).
\<close>

theorem checkpoint_architecture:
  "num_embeddings (embedding (VisualizeInternalGates_init rnd)) = 82 \<and>
   embedding_dim (embedding (VisualizeInternalGates_init rnd)) = 256 \<and>
   has_shape (weight (embedding (VisualizeInternalGates_init rnd))) 82 256 \<and>
   input_size (rnn_model (VisualizeInternalGates_init rnd)) = 256 \<and>
   hidden_size (rnn_model (VisualizeInternalGates_init rnd)) = 128 \<and>
   has_shape (W_f (rnn_model (VisualizeInternalGates_init rnd))) 128 (128 + 256) \<and>
   has_shape (W_c (rnn_model (VisualizeInternalGates_init rnd))) 128 (128 + 256) \<and>
   has_shape (W_o (rnn_model (VisualizeInternalGates_init rnd))) 128 (128 + 256) \<and>
   in_features (classifier (VisualizeInternalGates_init rnd)) = 128 \<and>
   out_features (classifier (VisualizeInternalGates_init rnd)) = 82 \<and>
   has_shape (lin_weight (classifier (VisualizeInternalGates_init rnd))) 82 128 \<and>
   length (bias (classifier (VisualizeInternalGates_init rnd))) = 82"
  by (simp add: VisualizeInternalGates_init_def Let_def nn_Embedding_def nn_Linear_def
      VisualizeCoupledLSTMCell_init_def filled_shape CKPT_VOCABULARY_SIZE_def
      CKPT_EMBEDDING_DIM_def CKPT_HIDDEN_SIZE_def)

section \<open>The loop over the steps, with exact arithmetic\<close>

lemma insideI:
  assumes "has_shape t r c" "\<And>b j. b < r \<Longrightarrow> j < c \<Longrightarrow> lo < t ! b ! j \<and> t ! b ! j < hi"
  shows "inside lo hi t"
  unfolding inside_def list_all_length
  using assms by (simp add: has_shape_length has_shape_row)

lemma insideD:
  assumes "inside lo hi t" "b < length t" "j < length (t ! b)"
  shows "lo < t ! b ! j \<and> t ! b ! j < hi"
  using assms unfolding inside_def list_all_length by simp

lemma sigmoid_bounds: "0 < sigmoid v \<and> sigmoid v < 1"
  by (simp add: sigmoid_def add_pos_pos)

lemma tanh_bounds: "- 1 < tanh (v :: real) \<and> tanh v < 1"
  using tanh_real_gt_neg1 [of v] tanh_real_lt_1 [of v] by simp

lemma convex_inside:
  fixes f c d :: real
  assumes f: "0 < f" "f < 1" and c: "- 1 < c" "c < 1" and d: "- 1 < d" "d < 1"
  shows "- 1 < f * c + (1 - f) * d \<and> f * c + (1 - f) * d < 1"
proof -
  have 1: "f * c < f * 1"
    using mult_strict_left_mono [OF c(2) f(1)] .
  have 2: "f * (- 1) < f * c"
    using mult_strict_left_mono [OF c(1) f(1)] .
  have g: "0 < 1 - f"
    using f by simp
  have 3: "(1 - f) * d < (1 - f) * 1"
    using mult_strict_left_mono [OF d(2) g] .
  have 4: "(1 - f) * (- 1) < (1 - f) * d"
    using mult_strict_left_mono [OF d(1) g] .
  have "f * c + (1 - f) * d < f * 1 + (1 - f) * 1"
    using 1 3 by (rule add_strict_mono)
  moreover have "f * (- 1) + (1 - f) * (- 1) < f * c + (1 - f) * d"
    using 2 4 by (rule add_strict_mono)
  ultimately show ?thesis
    by (simp add: algebra_simps)
qed

lemma zeros_inside: "inside (- 1) 1 (zeros r c)"
  by (rule insideI [OF zeros_shape]) (simp add: zeros_nth)

lemma step_inside:
  assumes shaped: "cell_shaped cell" and fits: "fits cell x h c" and c: "inside (- 1) 1 c"
  shows "\<exists>next_h next_c g.
           VisualizeCoupledLSTMCell_forward cell x (Some (h, c)) = Inr (next_h, next_c, g) \<and>
           has_shape next_h (length x) (hidden_size cell) \<and>
           has_shape next_c (length x) (hidden_size cell) \<and>
           inside (- 1) 1 next_c \<and> gates_inside g"
proof -
  from coupled_step [OF shaped fits] obtain next_h next_c f og ct where
    run: "VisualizeCoupledLSTMCell_forward cell x (Some (h, c)) = Inr (next_h, next_c, (f, og, ct))"
    and sh: "has_shape next_h (length x) (hidden_size cell)"
      "has_shape next_c (length x) (hidden_size cell)"
      "has_shape f (length x) (hidden_size cell)"
      "has_shape og (length x) (hidden_size cell)"
      "has_shape ct (length x) (hidden_size cell)"
    and eqs: "\<And>b j. b < length x \<Longrightarrow> j < hidden_size cell \<Longrightarrow>
              f ! b ! j = sigmoid (affine (W_f cell) j (stacked h x b)) \<and>
              og ! b ! j = sigmoid (affine (W_o cell) j (stacked h x b)) \<and>
              ct ! b ! j = tanh (affine (W_c cell) j (stacked h x b)) \<and>
              next_c ! b ! j = f ! b ! j * c ! b ! j + (1 - f ! b ! j) * ct ! b ! j \<and>
              next_h ! b ! j = og ! b ! j * tanh (next_c ! b ! j)"
    by blast
  have cs: "has_shape c (length x) (hidden_size cell)"
    using fits by (simp add: fits_def)
  have f: "inside 0 1 f"
    by (rule insideI [OF sh(3)]) (simp add: eqs sigmoid_bounds)
  have og: "inside 0 1 og"
    by (rule insideI [OF sh(4)]) (simp add: eqs sigmoid_bounds)
  have ct: "inside (- 1) 1 ct"
    by (rule insideI [OF sh(5)]) (simp add: eqs tanh_bounds)
  have nc: "inside (- 1) 1 next_c"
  proof (rule insideI [OF sh(2)])
    fix b j
    assume bj: "b < length x" "j < hidden_size cell"
    have "0 < f ! b ! j \<and> f ! b ! j < 1"
      using insideD [OF f] nth_shaped [OF sh(3) bj] by simp
    moreover have "- 1 < c ! b ! j \<and> c ! b ! j < 1"
      using insideD [OF c] nth_shaped [OF cs bj] by simp
    moreover have "- 1 < ct ! b ! j \<and> ct ! b ! j < 1"
      using insideD [OF ct] nth_shaped [OF sh(5) bj] by simp
    ultimately show "- 1 < next_c ! b ! j \<and> next_c ! b ! j < 1"
      using eqs [OF bj] convex_inside by simp
  qed
  from run sh f og ct nc show ?thesis
    by (simp add: gates_inside_def)
qed

lemma forward_None:
  "VisualizeCoupledLSTMCell_forward cell x None
     = VisualizeCoupledLSTMCell_forward cell x
         (Some (zeros (length x) (hidden_size cell), zeros (length x) (hidden_size cell)))"
  by (simp add: VisualizeCoupledLSTMCell_forward_def Let_def)

lemma fits_shaped:
  assumes "has_shape x B (input_size cell)" "has_shape h B (hidden_size cell)"
    "has_shape c B (hidden_size cell)"
  shows "fits cell x h c"
proof -
  have len: "length x = B" "length h = B"
    using assms by (simp_all add: has_shape_length)
  have "has_shape (cat_dim1 h x) B (hidden_size cell + input_size cell)"
    using len assms by (intro has_shapeI) (simp_all add: cat_dim1_def has_shape_row)
  then show ?thesis
    using len assms(3) by (simp add: fits_def has_shape_def)
qed

lemma step_from_state:
  assumes shaped: "cell_shaped cell" and x: "has_shape x B (input_size cell)"
    and state: "state = None \<or> (\<exists>h c. state = Some (h, c) \<and> has_shape h B (hidden_size cell) \<and>
                  has_shape c B (hidden_size cell) \<and> inside (- 1) 1 c)"
  shows "\<exists>next_h next_c g.
           VisualizeCoupledLSTMCell_forward cell x state = Inr (next_h, next_c, g) \<and>
           has_shape next_h B (hidden_size cell) \<and>
           has_shape next_c B (hidden_size cell) \<and>
           inside (- 1) 1 next_c \<and> gates_inside g"
proof -
  have B: "length x = B"
    using x by (rule has_shape_length)
  from state show ?thesis
  proof
    assume "state = None"
    then show ?thesis
      using step_inside [OF shaped fits_shaped [OF x zeros_shape zeros_shape] zeros_inside] B
      by (simp add: forward_None)
  next
    assume "\<exists>h c. state = Some (h, c) \<and> has_shape h B (hidden_size cell) \<and>
              has_shape c B (hidden_size cell) \<and> inside (- 1) 1 c"
    then obtain h c where "state = Some (h, c)" "has_shape h B (hidden_size cell)"
      "has_shape c B (hidden_size cell)" "inside (- 1) 1 c"
      by blast
    then show ?thesis
      using step_inside [OF shaped fits_shaped [OF x], of h c] B by simp
  qed
qed

lemma step_state_inside:
  assumes "cell_shaped cell" "has_shape x B (input_size cell)"
    "state_inside B (hidden_size cell) state"
  shows "\<exists>next_h next_c g.
           VisualizeCoupledLSTMCell_forward cell x state = Inr (next_h, next_c, g) \<and>
           state_inside B (hidden_size cell) (Some (next_h, next_c)) \<and> gates_inside g"
proof -
  have "state = None \<or> (\<exists>h c. state = Some (h, c) \<and> has_shape h B (hidden_size cell) \<and>
          has_shape c B (hidden_size cell) \<and> inside (- 1) 1 c)"
    using assms(3) by (auto simp: state_inside_def split: option.splits)
  from step_from_state [OF assms(1,2) this] show ?thesis
    by (auto simp: state_inside_def)
qed

lemma select_step_shape:
  assumes "data_shaped dat B T D" "step < T"
  shows "has_shape (select_step dat step) B D"
proof (rule has_shapeI)
  show "length (select_step dat step) = B"
    using assms(1) by (simp add: select_step_def data_shaped_def)
next
  fix b assume b: "b < B"
  then have "has_shape (dat ! b) T D"
    using assms(1) by (simp add: data_shaped_def list_all_length)
  then show "length (select_step dat step ! b) = D"
    using assms b by (simp add: select_step_def data_shaped_def has_shape_row)
qed

lemma steps_loop_history:
  assumes "steps_loop cell dat steps state internals = Inr (state', internals')"
  shows "internals' = internals @ gate_history cell (map (select_step dat) steps) state \<and>
         length (gate_history cell (map (select_step dat) steps) state) = length steps \<and>
         (steps = [] \<longrightarrow> state' = state) \<and> (steps \<noteq> [] \<longrightarrow> state' \<noteq> None)"
  using assms
proof (induction steps arbitrary: state internals)
  case Nil
  then show ?case by simp
next
  case (Cons step steps)
  from Cons.prems obtain next_h next_c g where
    fw: "VisualizeCoupledLSTMCell_forward cell (select_step dat step) state
           = Inr (next_h, next_c, g)"
    and rest: "steps_loop cell dat steps (Some (next_h, next_c)) (internals @ [g])
                 = Inr (state', internals')"
    by (auto split: sum.splits)
  from Cons.IH [OF rest] fw show ?case
    by (cases steps) auto
qed

lemma steps_loop_runs:
  assumes shaped: "cell_shaped cell"
    and dat: "data_shaped dat B T (input_size cell)"
    and steps: "list_all (\<lambda>step. step < T) steps"
    and state: "state_inside B (hidden_size cell) state"
    and internals: "list_all gates_inside internals"
  shows "\<exists>state' internals'.
           steps_loop cell dat steps state internals = Inr (state', internals') \<and>
           state_inside B (hidden_size cell) state' \<and> list_all gates_inside internals'"
  using steps state internals
proof (induction steps arbitrary: state internals)
  case Nil
  then show ?case by simp
next
  case (Cons step steps)
  from Cons.prems(1) have step: "step < T" and rest: "list_all (\<lambda>step. step < T) steps"
    by simp_all
  from step_state_inside [OF shaped select_step_shape [OF dat step] Cons.prems(2)]
  obtain next_h next_c g where
    fw: "VisualizeCoupledLSTMCell_forward cell (select_step dat step) state
           = Inr (next_h, next_c, g)"
    and ok: "state_inside B (hidden_size cell) (Some (next_h, next_c))" "gates_inside g"
    by blast
  have "list_all gates_inside (internals @ [g])"
    using Cons.prems(3) ok(2) by simp
  from Cons.IH [OF rest ok(1) this] fw show ?case
    by simp
qed

text \<open>
  With real numbers as entries (no rounding), the loop of the forward pass, started without a
  state, returns after any number \<open>k\<close> of steps with a state and \<open>k\<close> gate signals of the right
  shapes, all strictly inside their ranges. The forward pass below needs the shapes.
\<close>

lemma coupled_loop_runs:
  assumes shaped: "cell_shaped cell"
    and dat: "data_shaped dat B T (input_size cell)"
    and k: "k \<le> T"
  shows "\<exists>state internals.
           steps_loop cell dat [0..<k] None [] = Inr (state, internals) \<and>
           length internals = k \<and>
           (state = None) = (k = 0) \<and>
           state_inside B (hidden_size cell) state \<and>
           list_all gates_inside internals"
proof -
  have steps: "list_all (\<lambda>step. step < T) [0..<k]"
    using k by (simp add: list_all_iff)
  have start: "state_inside B (hidden_size cell) None"
    by (simp add: state_inside_def)
  from steps_loop_runs [OF shaped dat steps start, of "[]"] obtain state internals where
    run: "steps_loop cell dat [0..<k] None [] = Inr (state, internals)"
    and ok: "state_inside B (hidden_size cell) state" "list_all gates_inside internals"
    by auto
  from steps_loop_history [OF run] have "length internals = k" "(state = None) = (k = 0)"
    by auto
  with run ok show ?thesis by blast
qed

section \<open>The forward pass\<close>

lemma zip_star_nonempty:
  "gs \<noteq> [] \<Longrightarrow> zip_star gs = [map fst gs, map (fst \<circ> snd) gs, map (snd \<circ> snd) gs]"
  by (cases gs) simp_all

lemma embedding_runs:
  assumes m: "model_shaped m" and t: "tensor_ok t" "t_dtype t = int64" "tokens_ok t"
  shows "\<exists>dat. Embedding_forward (embedding m) t = Inr dat \<and>
               data_shaped dat (length (rows t)) (total_steps t) (input_size (rnn_model m))"
proof -
  define dat where "dat = map (map (\<lambda>i. weight (embedding m) ! nat i)) (rows t)"
  have n: "num_embeddings (embedding m) = CKPT_VOCABULARY_SIZE"
    and w: "has_shape (weight (embedding m)) CKPT_VOCABULARY_SIZE (input_size (rnn_model m))"
    using m by (simp_all add: model_shaped_def)
  have run: "Embedding_forward (embedding m) t = Inr dat"
    using t n by (simp add: Embedding_forward_def tokens_ok_def dat_def)
  have "has_shape (dat ! b) (total_steps t) (input_size (rnn_model m))"
    if b: "b < length (rows t)" for b
  proof (rule has_shapeI)
    have len: "length (rows t ! b) = total_steps t"
      using t(1) b unfolding tensor_ok_def
      by (metis length_map nth_map nth_replicate)
    show "length (dat ! b) = total_steps t"
      using b len by (simp add: dat_def)
    fix s assume s: "s < total_steps t"
    have "0 \<le> rows t ! b ! s \<and> rows t ! b ! s < int CKPT_VOCABULARY_SIZE"
      using t(3) b s len by (simp add: tokens_ok_def list_all_length)
    then have "nat (rows t ! b ! s) < CKPT_VOCABULARY_SIZE"
      by linarith
    then show "length (dat ! b ! s) = input_size (rnn_model m)"
      using b s len w by (simp add: dat_def has_shape_row)
  qed
  then have "data_shaped dat (length (rows t)) (total_steps t) (input_size (rnn_model m))"
    by (simp add: data_shaped_def list_all_length dat_def)
  with run show ?thesis by blast
qed

lemma linear_bias_shape:
  assumes "has_shape Wt n k" "length b = n"
  shows "has_shape (linear_bias inp Wt b) (length inp) n"
proof (rule has_shapeI)
  show "length (linear_bias inp Wt b) = length inp"
    by (simp add: linear_bias_def linear_def)
next
  fix i assume "i < length inp"
  then show "length (linear_bias inp Wt b ! i) = n"
    using assms by (simp add: linear_bias_def linear_def has_shape_length)
qed

lemma classifier_runs:
  assumes m: "model_shaped m" and h: "has_shape h B (hidden_size (rnn_model m))"
  shows "\<exists>logits. Linear_forward (classifier m) h = Inr logits \<and>
                  has_shape logits B CKPT_VOCABULARY_SIZE"
proof -
  have inf: "in_features (classifier m) = hidden_size (rnn_model m)"
    and w: "has_shape (lin_weight (classifier m)) CKPT_VOCABULARY_SIZE CKPT_HIDDEN_SIZE"
    and b: "length (bias (classifier m)) = CKPT_VOCABULARY_SIZE"
    using m by (simp_all add: model_shaped_def)
  have B: "length h = B"
    using h by (rule has_shape_length)
  have "map length h = replicate (length h) (in_features (classifier m))"
    using h B inf by (simp add: has_shape_def)
  then have "Linear_forward (classifier m) h
               = Inr (linear_bias h (lin_weight (classifier m)) (bias (classifier m)))"
    by (simp add: Linear_forward_def)
  with linear_bias_shape [OF w b, of h] B show ?thesis
    by simp
qed

text \<open>What a returning forward pass has computed.\<close>

lemma forward_returns:
  assumes "VisualizeInternalGates_forward m t = Inr (logits, outs)"
  shows "\<exists>dat state h c.
           Embedding_forward (embedding m) t = Inr dat \<and>
           1 \<le> total_steps t \<and>
           steps_loop (rnn_model m) dat [0..<total_steps t] None []
             = Inr (Some (h, c),
                    gate_history (rnn_model m) (map (select_step dat) [0..<total_steps t]) None) \<and>
           length (gate_history (rnn_model m) (map (select_step dat) [0..<total_steps t]) None)
             = total_steps t \<and>
           Linear_forward (classifier m) h = Inr logits \<and>
           outs = [''update_signals'' \<mapsto>
                     map fst (gate_history (rnn_model m)
                                (map (select_step dat) [0..<total_steps t]) None),
                   ''reset_signals'' \<mapsto>
                     map (fst \<circ> snd) (gate_history (rnn_model m)
                                (map (select_step dat) [0..<total_steps t]) None),
                   ''cell_state_candidates'' \<mapsto>
                     map (snd \<circ> snd) (gate_history (rnn_model m)
                                (map (select_step dat) [0..<total_steps t]) None)]"
proof -
  from assms obtain dat where dat: "Embedding_forward (embedding m) t = Inr dat"
    by (auto simp: VisualizeInternalGates_forward_def split: sum.splits)
  from assms dat obtain state internals where
    loop: "steps_loop (rnn_model m) dat [0..<total_steps t] None [] = Inr (state, internals)"
    by (auto simp: VisualizeInternalGates_forward_def split: sum.splits)
  from assms dat loop obtain h c where state: "state = Some (h, c)"
    by (auto simp: VisualizeInternalGates_forward_def split: option.splits)
  define hist where
    "hist = gate_history (rnn_model m) (map (select_step dat) [0..<total_steps t]) None"
  from steps_loop_history [OF loop] state have
    internals: "internals = hist" and len: "length hist = total_steps t"
    and T: "1 \<le> total_steps t"
    by (auto simp: hist_def)
  have ne: "hist \<noteq> []"
    using len T by auto
  from assms dat loop state obtain lg where lg: "Linear_forward (classifier m) h = Inr lg"
    by (auto simp: VisualizeInternalGates_forward_def split: sum.splits)
  have "VisualizeInternalGates_forward m t
          = Inr (lg, [''update_signals'' \<mapsto> map fst hist,
                      ''reset_signals'' \<mapsto> map (fst \<circ> snd) hist,
                      ''cell_state_candidates'' \<mapsto> map (snd \<circ> snd) hist])"
    using dat loop state lg internals
    by (simp add: VisualizeInternalGates_forward_def zip_star_nonempty [OF ne] list_get_def)
  with assms have "logits = lg"
    and "outs = [''update_signals'' \<mapsto> map fst hist,
                 ''reset_signals'' \<mapsto> map (fst \<circ> snd) hist,
                 ''cell_state_candidates'' \<mapsto> map (snd \<circ> snd) hist]"
    by simp_all
  with dat loop state internals len T lg show ?thesis
    unfolding hist_def by blast
qed

lemma forward_runs:
  assumes m: "model_shaped m" and t: "tensor_ok t" "t_dtype t = int64" "tokens_ok t"
    and T: "1 \<le> total_steps t"
  shows "\<exists>logits outs. VisualizeInternalGates_forward m t = Inr (logits, outs) \<and>
           has_shape logits (length (rows t)) CKPT_VOCABULARY_SIZE"
proof -
  from embedding_runs [OF m t] obtain dat where
    dat: "Embedding_forward (embedding m) t = Inr dat"
    and shaped: "data_shaped dat (length (rows t)) (total_steps t) (input_size (rnn_model m))"
    by blast
  have cell: "cell_shaped (rnn_model m)"
    using m by (simp add: model_shaped_def)
  from coupled_loop_runs [OF cell shaped, of "total_steps t"] obtain state internals where
    loop: "steps_loop (rnn_model m) dat [0..<total_steps t] None [] = Inr (state, internals)"
    and len: "length internals = total_steps t" and some: "state \<noteq> None"
    and inside: "state_inside (length (rows t)) (hidden_size (rnn_model m)) state"
    using T by auto
  from some inside obtain h c where state: "state = Some (h, c)"
    and h: "has_shape h (length (rows t)) (hidden_size (rnn_model m))"
    by (auto simp: state_inside_def)
  from classifier_runs [OF m h] obtain logits where
    lg: "Linear_forward (classifier m) h = Inr logits"
    and shape: "has_shape logits (length (rows t)) CKPT_VOCABULARY_SIZE"
    by blast
  have ne: "internals \<noteq> []"
    using len T by auto
  have "VisualizeInternalGates_forward m t
          = Inr (logits, [''update_signals'' \<mapsto> map fst internals,
                          ''reset_signals'' \<mapsto> map (fst \<circ> snd) internals,
                          ''cell_state_candidates'' \<mapsto> map (snd \<circ> snd) internals])"
    using dat loop state lg
    by (simp add: VisualizeInternalGates_forward_def zip_star_nonempty [OF ne] list_get_def)
  with shape show ?thesis by blast
qed

section \<open>What the forward pass returns\<close>

lemma example_tensor_ok:
  "tensor_ok example_tensor \<and> t_dtype example_tensor = int64 \<and> tokens_ok example_tensor \<and>
   1 \<le> total_steps example_tensor"
  by (simp add: tensor_ok_def tokens_ok_def example_tensor_def CKPT_VOCABULARY_SIZE_def)





text \<open>
  C10, as the claim states it, does not hold: a batch with one step whose token is 82, an index
  that the embedding of 82 tokens does not have, has a time dimension of 1, and \<open>forward\<close> of
  the constructed model raises an \<open>IndexError\<close> on it instead of returning logits.
\<close>

theorem forward_out_of_range_token:
  "tensor_ok out_of_range_tensor \<and> 1 \<le> total_steps out_of_range_tensor \<and>
   VisualizeInternalGates_forward (VisualizeInternalGates_init zero_draws) out_of_range_tensor
     = Inl IndexError"
  by (simp add: tensor_ok_def out_of_range_tensor_def VisualizeInternalGates_forward_def
      Embedding_forward_def VisualizeInternalGates_init_def Let_def nn_Embedding_def
      CKPT_VOCABULARY_SIZE_def)

text \<open>
  C10, amended. For a model with the sizes and shapes of the constructor and a batch of integer
  token indices between 0 and 81, of shape \<open>(batch, total_steps)\<close>: when the time dimension is
  at least 1, \<open>forward\<close> returns logits of shape \<open>(batch, 82)\<close> and, under each of the three
  keys, a list with one entry for each step; when the time dimension is 0, the state is still
  \<open>None\<close> after the loop and reading \<open>state[0]\<close> raises a \<open>TypeError\<close>.
\<close>

theorem forward_needs_a_step:
  assumes m: "model_shaped m" and t: "tensor_ok t" "t_dtype t = int64" "tokens_ok t"
  shows "(1 \<le> total_steps t \<longrightarrow>
           (\<exists>logits outs u r c.
              VisualizeInternalGates_forward m t = Inr (logits, outs) \<and>
              has_shape logits (length (rows t)) 82 \<and>
              outs ''update_signals'' = Some u \<and> length u = total_steps t \<and>
              outs ''reset_signals'' = Some r \<and> length r = total_steps t \<and>
              outs ''cell_state_candidates'' = Some c \<and> length c = total_steps t)) \<and>
         (total_steps t = 0 \<longrightarrow> VisualizeInternalGates_forward m t = Inl TypeError)"
proof (intro conjI impI)
  assume T: "1 \<le> total_steps t"
  from forward_runs [OF m t T] obtain logits outs where
    run: "VisualizeInternalGates_forward m t = Inr (logits, outs)"
    and shape: "has_shape logits (length (rows t)) 82"
    by (auto simp: CKPT_VOCABULARY_SIZE_def)
  from forward_returns [OF run] run shape
  show "\<exists>logits outs u r c.
              VisualizeInternalGates_forward m t = Inr (logits, outs) \<and>
              has_shape logits (length (rows t)) 82 \<and>
              outs ''update_signals'' = Some u \<and> length u = total_steps t \<and>
              outs ''reset_signals'' = Some r \<and> length r = total_steps t \<and>
              outs ''cell_state_candidates'' = Some c \<and> length c = total_steps t"
    by auto
next
  assume T: "total_steps t = 0"
  from embedding_runs [OF m t] obtain dat where
    "Embedding_forward (embedding m) t = Inr dat"
    by blast
  then show "VisualizeInternalGates_forward m t = Inl TypeError"
    using T by (simp add: VisualizeInternalGates_forward_def)
qed

theorem forward_needs_a_step_witness:
  "model_shaped (VisualizeInternalGates_init zero_draws) \<and>
   tensor_ok example_tensor \<and> t_dtype example_tensor = int64 \<and> tokens_ok example_tensor \<and>
   1 \<le> total_steps example_tensor \<and>
   (\<exists>logits outs u.
      VisualizeInternalGates_forward (VisualizeInternalGates_init zero_draws) example_tensor
        = Inr (logits, outs) \<and>
      has_shape logits 1 82 \<and> outs ''update_signals'' = Some u \<and> length u = 2) \<and>
   tensor_ok empty_tensor \<and> t_dtype empty_tensor = int64 \<and> tokens_ok empty_tensor \<and>
   total_steps empty_tensor = 0 \<and>
   VisualizeInternalGates_forward (VisualizeInternalGates_init zero_draws) empty_tensor
     = Inl TypeError"
proof -
  have e: "tensor_ok empty_tensor" "t_dtype empty_tensor = int64" "tokens_ok empty_tensor"
    "total_steps empty_tensor = 0"
    by (simp_all add: tensor_ok_def tokens_ok_def empty_tensor_def)
  have x: "tensor_ok example_tensor" "t_dtype example_tensor = int64" "tokens_ok example_tensor"
    "1 \<le> total_steps example_tensor"
    using example_tensor_ok by simp_all
  have len: "length (rows example_tensor) = 1" "total_steps example_tensor = 2"
    by (simp_all add: example_tensor_def)
  from forward_needs_a_step [OF init_model_shaped x(1-3), of zero_draws]
    forward_needs_a_step [OF init_model_shaped e(1-3), of zero_draws]
    e x len init_model_shaped [of zero_draws]
  show ?thesis
    by (simp only: simp_thms) blast
qed

end
